theory Spec2Isabelle
  imports Complex_Main "HOL-Library.Word"
begin

section \<open>The multi-body state vector (full_rigid_body_system.hpp)\<close>

text \<open>
  The class \<open>FullRigidBodySystem\<close> is an Eigen column vector of scalars,
  grouped into blocks of 13 components per body. The Eigen scalar is kept as a type
  parameter \<open>'a\<close> with a zero and a one: the class only stores, copies and overwrites
  components, it never computes with them. Machine integers keep their width:
  \<open>unsigned\<close> is a \<open>32 word\<close>, \<open>size_t\<close> a \<open>64 word\<close>, Eigen's signed \<open>Index\<close> is read
  off a \<open>64 word\<close> with \<open>sint\<close>.

  Failures are values. Nothing in this class throws: \<open>InvalidArgument\<close> is in the type
  because the specification names it, \<open>EigenAssertion\<close> is a failed \<open>eigen_assert\<close>
  (a block outside the vector, a size that does not fit a fixed-size vector), and
  \<open>CompileError\<close> stands for an instantiation that a \<open>BOOST_STATIC_ASSERT\<close> or the
  type system rejects, so that no object exists.
\<close>

datatype error = InvalidArgument | EigenAssertion | CompileError

subsection \<open>The layout constants of FullRigidBodySystemTypes\<close>

definition COUNT_PER_BODY :: nat where "COUNT_PER_BODY = 13"
definition POSITION_INDEX :: nat where "POSITION_INDEX = 0"
definition POSITION_COUNT :: nat where "POSITION_COUNT = 3"
definition ORIENTATION_INDEX :: nat where "ORIENTATION_INDEX = 3"
definition ORIENTATION_COUNT :: nat where "ORIENTATION_COUNT = 4"
definition LINEAR_VELOCITY_INDEX :: nat where "LINEAR_VELOCITY_INDEX = 7"
definition LINEAR_VELOCITY_COUNT :: nat where "LINEAR_VELOCITY_COUNT = 3"
definition ANGULAR_VELOCITY_INDEX :: nat where "ANGULAR_VELOCITY_INDEX = 10"
definition ANGULAR_VELOCITY_COUNT :: nat where "ANGULAR_VELOCITY_COUNT = 3"

text \<open>
  The template argument of the base class, line 59:
  \<open>body_size == -1 ? -1 : body_size * COUNT_PER_BODY\<close>; \<open>-1\<close> is Eigen's \<open>Dynamic\<close>.
\<close>

definition SIZE_STATE :: "int \<Rightarrow> int" where
  "SIZE_STATE body_size = (if body_size = - 1 then - 1 else body_size * int COUNT_PER_BODY)"

subsection \<open>The base class\<close>

text \<open>
  Modelled from the spec: the base class \<open>RigidBodySystem\<close> (rigid_body_system.hpp is
  not among the sources). The specification gives the state as a flat ordered sequence
  of scalars with "state size and body count queries"; the derived class hands the base
  constructor a vector and a body count. So the base keeps the two, \<open>countState\<close>
  reports the number of components and \<open>countBodies\<close> the count it was given, both as
  \<open>unsigned\<close> (the return type the derived class declares).
\<close>

record 'a RigidBodySystem =
  state_vector :: "'a list"
  count_bodies :: "32 word"

definition Base :: "'a list \<Rightarrow> 32 word \<Rightarrow> 'a RigidBodySystem" where
  "Base v n = \<lparr>state_vector = v, count_bodies = n\<rparr>"

definition countState :: "'a RigidBodySystem \<Rightarrow> 32 word" where
  "countState s = of_nat (length (state_vector s))"

definition countBodies :: "'a RigidBodySystem \<Rightarrow> 32 word" where
  "countBodies s = count_bodies s"

subsection \<open>Eigen: vectors, blocks and quaternions\<close>

text \<open>
  \<open>Zero(n)\<close> is the vector of \<open>n\<close> zeros. \<open>middleRows<N>(startRow)\<close> is the block of
  \<open>N\<close> rows from \<open>startRow\<close>; Eigen asserts \<open>0 \<le> startRow\<close> and
  \<open>startRow + N \<le> rows()\<close>. The start arrives as a \<open>size_t\<close> and is converted to the
  signed \<open>Index\<close>.
\<close>

definition Zero :: "nat \<Rightarrow> ('a::zero) list" where
  "Zero n = replicate n 0"

definition in_rows :: "nat \<Rightarrow> 64 word \<Rightarrow> 'a list \<Rightarrow> bool" where
  "in_rows n startRow v = (0 \<le> sint startRow \<and> nat (sint startRow) + n \<le> length v)"

definition middleRows :: "nat \<Rightarrow> 64 word \<Rightarrow> 'a list \<Rightarrow> error + 'a list" where
  "middleRows n startRow v =
     (if in_rows n startRow v then Inr (take n (drop (nat (sint startRow)) v))
      else Inl EigenAssertion)"

text \<open>Assigning to a block copies the coefficients one by one, first to last.\<close>

fun assign_coeffs :: "nat \<Rightarrow> 'a list \<Rightarrow> 'a list \<Rightarrow> 'a list" where
  "assign_coeffs k [] v = v"
| "assign_coeffs k (x # xs) v = assign_coeffs (Suc k) xs (v[k := x])"

definition middleRows_assign :: "nat \<Rightarrow> 64 word \<Rightarrow> 'a list \<Rightarrow> 'a list \<Rightarrow> error + 'a list" where
  "middleRows_assign n startRow vals v =
     (if in_rows n startRow v \<and> length vals = n
      then Inr (assign_coeffs (nat (sint startRow)) vals v)
      else Inl EigenAssertion)"

text \<open>
  An Eigen quaternion keeps its coefficients in the order x, y, z, w; its constructor
  from four scalars takes them as w, x, y, z, and \<open>Identity()\<close> is \<open>Quaternion(1, 0, 0, 0)\<close>.
  The constructor from a 4-vector takes the vector as the coefficients.
\<close>

record 'a Quaternion =
  qx :: 'a
  qy :: 'a
  qz :: 'a
  qw :: 'a

definition Quaternion_wxyz :: "'a \<Rightarrow> 'a \<Rightarrow> 'a \<Rightarrow> 'a \<Rightarrow> 'a Quaternion" where
  "Quaternion_wxyz w x y z = \<lparr>qx = x, qy = y, qz = z, qw = w\<rparr>"

definition Quaternion_Identity :: "('a::{zero,one}) Quaternion" where
  "Quaternion_Identity = Quaternion_wxyz 1 0 0 0"

definition coeffs :: "'a Quaternion \<Rightarrow> 'a list" where
  "coeffs q = [qx q, qy q, qz q, qw q]"

definition Quaternion_of_vector :: "'a list \<Rightarrow> 'a Quaternion" where
  "Quaternion_of_vector c = \<lparr>qx = c ! 0, qy = c ! 1, qz = c ! 2, qw = c ! 3\<rparr>"

definition squaredNorm :: "('a::semiring_1) Quaternion \<Rightarrow> 'a" where
  "squaredNorm q = qx q * qx q + qy q * qy q + qz q * qz q + qw q * qw q"

definition quaternion_norm :: "real Quaternion \<Rightarrow> real" where
  "quaternion_norm q = sqrt (squaredNorm q)"

subsection \<open>The get functions (lines 125 to 144)\<close>

definition body_offset :: "64 word \<Rightarrow> nat \<Rightarrow> 64 word" where
  "body_offset object_index field_index = object_index * of_nat COUNT_PER_BODY + of_nat field_index"

definition get_position :: "'a RigidBodySystem \<Rightarrow> 64 word \<Rightarrow> error + 'a list" where
  "get_position s object_index =
     middleRows POSITION_COUNT (body_offset object_index POSITION_INDEX) (state_vector s)"

definition get_orientation :: "'a RigidBodySystem \<Rightarrow> 64 word \<Rightarrow> error + 'a list" where
  "get_orientation s object_index =
     middleRows ORIENTATION_COUNT (body_offset object_index ORIENTATION_INDEX) (state_vector s)"

definition get_quaternion :: "'a RigidBodySystem \<Rightarrow> 64 word \<Rightarrow> error + 'a Quaternion" where
  "get_quaternion s object_index =
     (case get_orientation s object_index of
        Inl e \<Rightarrow> Inl e
      | Inr c \<Rightarrow> Inr (Quaternion_of_vector c))"

definition get_linear_velocity :: "'a RigidBodySystem \<Rightarrow> 64 word \<Rightarrow> error + 'a list" where
  "get_linear_velocity s object_index =
     middleRows LINEAR_VELOCITY_COUNT (body_offset object_index LINEAR_VELOCITY_INDEX)
       (state_vector s)"

definition get_angular_velocity :: "'a RigidBodySystem \<Rightarrow> 64 word \<Rightarrow> error + 'a list" where
  "get_angular_velocity s object_index =
     middleRows ANGULAR_VELOCITY_COUNT (body_offset object_index ANGULAR_VELOCITY_INDEX)
       (state_vector s)"

subsection \<open>The writable block views (lines 147 to 167)\<close>

text \<open>
  A \<open>VectorBlock\<close> is a view of \<open>N\<close> components of the state from a
  start row: it holds no values of its own. Its constructor makes the same range
  assertion as \<open>middleRows\<close>. Reading the view reads the state, and writing through it
  (one coefficient, or a whole vector of the block's size) writes the state.
\<close>

record VectorBlock =
  block_start :: nat
  block_size :: nat

definition make_block :: "nat \<Rightarrow> 64 word \<Rightarrow> 'a RigidBodySystem \<Rightarrow> error + VectorBlock" where
  "make_block n startRow s =
     (if in_rows n startRow (state_vector s)
      then Inr \<lparr>block_start = nat (sint startRow), block_size = n\<rparr>
      else Inl EigenAssertion)"

definition position :: "'a RigidBodySystem \<Rightarrow> 64 word \<Rightarrow> error + VectorBlock" where
  "position s object_index = make_block POSITION_COUNT (body_offset object_index POSITION_INDEX) s"

definition orientation :: "'a RigidBodySystem \<Rightarrow> 64 word \<Rightarrow> error + VectorBlock" where
  "orientation s object_index =
     make_block ORIENTATION_COUNT (body_offset object_index ORIENTATION_INDEX) s"

definition linear_velocity :: "'a RigidBodySystem \<Rightarrow> 64 word \<Rightarrow> error + VectorBlock" where
  "linear_velocity s object_index =
     make_block LINEAR_VELOCITY_COUNT (body_offset object_index LINEAR_VELOCITY_INDEX) s"

definition angular_velocity :: "'a RigidBodySystem \<Rightarrow> 64 word \<Rightarrow> error + VectorBlock" where
  "angular_velocity s object_index =
     make_block ANGULAR_VELOCITY_COUNT (body_offset object_index ANGULAR_VELOCITY_INDEX) s"

definition single_body :: "'a RigidBodySystem \<Rightarrow> 64 word \<Rightarrow> error + VectorBlock" where
  "single_body s object_index = make_block COUNT_PER_BODY (body_offset object_index 0) s"

definition block_indices :: "VectorBlock \<Rightarrow> nat list" where
  "block_indices b = [block_start b ..< block_start b + block_size b]"

definition block_read :: "'a RigidBodySystem \<Rightarrow> VectorBlock \<Rightarrow> 'a list" where
  "block_read s b = map (\<lambda>j. state_vector s ! j) (block_indices b)"

definition block_set :: "'a RigidBodySystem \<Rightarrow> VectorBlock \<Rightarrow> nat \<Rightarrow> 'a \<Rightarrow> error + 'a RigidBodySystem" where
  "block_set s b k x =
     (if k < block_size b
      then Inr (s\<lparr>state_vector := (state_vector s)[block_start b + k := x]\<rparr>)
      else Inl EigenAssertion)"

definition block_assign :: "'a RigidBodySystem \<Rightarrow> VectorBlock \<Rightarrow> 'a list \<Rightarrow> error + 'a RigidBodySystem" where
  "block_assign s b vals =
     (if length vals = block_size b
      then Inr (s\<lparr>state_vector := assign_coeffs (block_start b) vals (state_vector s)\<rparr>)
      else Inl EigenAssertion)"

subsection \<open>reset_quaternions and the constructors (lines 102 to 120, 184 to 188)\<close>

text \<open>
  The loop of \<open>reset_quaternions\<close>: \<open>object_index\<close> is a \<open>size_t\<close> that runs below
  \<open>countBodies()\<close>, an \<open>unsigned\<close>, so it stays below \<open>2 ^ 32\<close> and is counted here as
  a natural number; the offset it is multiplied into is computed in \<open>size_t\<close>.
\<close>

function reset_quaternions_loop :: "nat \<Rightarrow> ('a::{zero,one}) RigidBodySystem \<Rightarrow> error + 'a RigidBodySystem" where
  "reset_quaternions_loop object_index s =
     (if object_index < unat (countBodies s)
      then (case middleRows_assign 4 (body_offset (of_nat object_index) 3)
                   (coeffs Quaternion_Identity) (state_vector s) of
              Inl e \<Rightarrow> Inl e
            | Inr v \<Rightarrow> reset_quaternions_loop (object_index + 1) (s\<lparr>state_vector := v\<rparr>))
      else Inr s)"
  by pat_completeness auto
termination
  by (relation "measure (\<lambda>(object_index, s). unat (countBodies s) - object_index)")
     (auto simp: countBodies_def)

declare reset_quaternions_loop.simps [simp del]

definition reset_quaternions :: "('a::{zero,one}) RigidBodySystem \<Rightarrow> error + 'a RigidBodySystem" where
  "reset_quaternions s = reset_quaternions_loop 0 s"

text \<open>
  The constructor for a static size, \<open>FullRigidBodySystem<body_size>()\<close>. It compiles
  only for \<open>body_size > -1\<close> (\<open>assert_fixed_size\<close>) and when the constant
  \<open>body_size * COUNT_PER_BODY\<close> fits an \<open>int\<close>.
\<close>

definition FullRigidBodySystem_fixed :: "int \<Rightarrow> error + ('a::{zero,one}) RigidBodySystem" where
  "FullRigidBodySystem_fixed body_size =
     (if body_size > - 1 \<and> SIZE_STATE body_size < 2 ^ 31
      then reset_quaternions (Base (Zero (nat (SIZE_STATE body_size))) (of_int body_size))
      else Inl CompileError)"

text \<open>
  The constructor for a dynamic size, \<open>FullRigidBodySystem<-1>(unsigned count_bodies)\<close>.
  It compiles only for \<open>body_size == -1\<close> (\<open>assert_dynamic_size\<close>). The product
  \<open>count_bodies * COUNT_PER_BODY\<close> is an \<open>unsigned\<close> product and wraps.
\<close>

definition FullRigidBodySystem_dynamic :: "int \<Rightarrow> 32 word \<Rightarrow> error + ('a::{zero,one}) RigidBodySystem" where
  "FullRigidBodySystem_dynamic body_size n =
     (if body_size = - 1
      then reset_quaternions (Base (Zero (unat (n * of_nat COUNT_PER_BODY))) n)
      else Inl CompileError)"

text \<open>
  The constructor with an initial value. Its body is empty: the base receives the
  vector and \<open>state_vector.rows() / COUNT_PER_BODY\<close>, an integer division, converted to
  the \<open>unsigned\<close> body count. A fixed-size state vector only takes a vector of its own
  size (an Eigen assertion); a negative size other than \<open>Dynamic\<close> does not compile.
\<close>

definition FullRigidBodySystem_from_vector :: "int \<Rightarrow> 'a list \<Rightarrow> error + 'a RigidBodySystem" where
  "FullRigidBodySystem_from_vector body_size v =
     (if body_size < - 1 then Inl CompileError
      else if body_size \<noteq> - 1 \<and> int (length v) \<noteq> SIZE_STATE body_size then Inl EigenAssertion
      else Inr (Base v (of_nat (length v div COUNT_PER_BODY))))"

subsection \<open>Body indices\<close>

text \<open>
  The accessors take any \<open>size_t\<close>. A body index is one below the body count; the
  blocks of all bodies lie in the vector when it has at least 13 components per body.
\<close>

definition body_index :: "'a RigidBodySystem \<Rightarrow> 64 word \<Rightarrow> bool" where
  "body_index s object_index = (unat object_index < unat (countBodies s))"

definition holds_bodies :: "'a RigidBodySystem \<Rightarrow> bool" where
  "holds_bodies s = (unat (countBodies s) * COUNT_PER_BODY \<le> length (state_vector s))"

text \<open>A state of two bodies with distinct components, for the worked examples: the tens
  digit tells the body and the field, the units digit the component.\<close>

definition two_bodies :: "int RigidBodySystem" where
  "two_bodies = Base [11, 12, 13, 21, 22, 23, 24, 31, 32, 33, 41, 42, 43,
                      51, 52, 53, 61, 62, 63, 64, 71, 72, 73, 81, 82, 83] 2"

section \<open>The renderer (rigid_body_renderer.hpp)\<close>

text \<open>
  The header declares the renderer's fields and defines three function templates, the
  generic \<open>Render\<close> overloads that take a state object. The fields end in an underscore
  in the source (\<open>camera_matrix_\<close>, \<open>R_\<close>); here they end in \<open>_m\<close>. A \<open>float\<close> or
  \<open>double\<close> is a finite number, an infinity or a NaN: the templates only test
  \<open>std::isfinite\<close> and copy, so a finite value is kept as the real number it stands for
  and the widening \<open>double(value)\<close> changes nothing.
\<close>

type_synonym Vector = "real \<times> real \<times> real"
type_synonym Matrix = "Vector \<times> Vector \<times> Vector"

datatype fp = Finite real | PosInf | NegInf | NaN

fun isfinite :: "fp \<Rightarrow> bool" where
  "isfinite (Finite x) = True"
| "isfinite PosInf = False"
| "isfinite NegInf = False"
| "isfinite NaN = False"

definition infinity :: fp where "infinity = PosInf"

definition default_bad_value :: fp where "default_bad_value = infinity"

definition double_of :: "fp \<Rightarrow> fp" where "double_of value = value"
definition float_of :: "fp \<Rightarrow> fp" where "float_of value = value"

record RigidBodyRenderer =
  camera_matrix_m :: Matrix
  n_rows_m :: int
  n_cols_m :: int
  vertices_m :: "Vector list list"
  normals_m :: "Vector list list"
  indices_m :: "int list list list"
  R_m :: "Matrix list"
  t_m :: "Vector list"
  coms_m :: "Vector list"
  com_weights_m :: "fp list"

text \<open>
  The template parameter \<open>RigidbodyState\<close> is any type with \<open>count_parts()\<close> and, for
  each part, \<open>component(i).orientation().rotation_matrix()\<close> and
  \<open>component(i).position()\<close>: a record of the three.
\<close>

record RigidbodyState =
  count_parts :: nat
  component_rotation_matrix :: "nat \<Rightarrow> Matrix"
  component_position :: "nat \<Rightarrow> Vector"

subsection \<open>What the header only declares\<close>

text \<open>
  Modelled from the spec: \<open>set_poses(rotations, translations)\<close>, declared in the header
  and defined in rigid_body_renderer.cpp, which is not among the sources. The
  specification: it "replaces the current pose for every body; both sequences must have
  length equal to body count, else fails with InvalidArgument; side effect: subsequent
  renders use this pose until the next call". The body count is the number of meshes.
\<close>

definition set_poses :: "RigidBodyRenderer \<Rightarrow> Matrix list \<Rightarrow> Vector list \<Rightarrow> error + RigidBodyRenderer" where
  "set_poses r rotations translations =
     (if length rotations = length (vertices_m r) \<and> length translations = length (vertices_m r)
      then Inr (r\<lparr>R_m := rotations, t_m := translations\<rparr>)
      else Inl InvalidArgument)"

text \<open>
  Modelled from the spec: the \<open>const\<close> overloads
  \<open>Render(camera_matrix, n_rows, n_cols, intersect_indices, depth)\<close> and
  \<open>Render(camera_matrix, n_rows, n_cols, depth_image)\<close>, declared in the header and
  defined in rigid_body_renderer.cpp. The specification: for every pixel in row-major
  order, and for each triangle of each body under the body's current pose, the
  intersection of the pixel's ray with the triangle is computed; "a hit is valid only if
  it lies within the triangle and at a strictly positive depth along the camera's forward
  axis. Across all bodies and triangles, keep the minimum valid depth per pixel and record
  the originating body index. Pixels with no valid intersection get a non-finite depth
  and the sentinel index"; among equal depths the first met wins.

  The geometry of one ray and one triangle is the parameter \<open>intersect\<close>: from the camera
  matrix, the pixel, the body's pose, its vertices and the triangle's vertex indices it
  gives the depth at which the ray meets the triangle, or \<open>None\<close> when the ray misses it
  (a parallel ray, a triangle of no area, a point outside the triangle). The sentinel
  index is \<open>-1\<close> and the depth of a pixel with no hit is the positive infinity. Being
  \<open>const\<close>, the overloads give outputs and leave the renderer as it is: they are
  functions of the renderer with no renderer in their result.
\<close>

type_synonym intersection =
  "Matrix \<Rightarrow> int \<Rightarrow> int \<Rightarrow> Matrix \<Rightarrow> Vector \<Rightarrow> Vector list \<Rightarrow> int list \<Rightarrow> real option"

definition sentinel_index :: int where "sentinel_index = - 1"

definition no_hit :: "int \<times> fp" where
  "no_hit = (sentinel_index, PosInf)"

fun valid_hit :: "real option \<Rightarrow> bool" where
  "valid_hit None = False"
| "valid_hit (Some z) = (0 < z)"

fun nearer :: "real \<Rightarrow> fp \<Rightarrow> bool" where
  "nearer z (Finite d) = (z < d)"
| "nearer z PosInf = True"
| "nearer z NegInf = False"
| "nearer z NaN = False"

fun keep_nearest :: "int \<times> fp \<Rightarrow> nat \<times> real option \<Rightarrow> int \<times> fp" where
  "keep_nearest (index, depth) (body, None) = (index, depth)"
| "keep_nearest (index, depth) (body, Some z) =
     (if 0 < z \<and> nearer z depth then (int body, Finite z) else (index, depth))"

definition posed_bodies ::
  "RigidBodyRenderer \<Rightarrow> (nat \<times> (Vector list \<times> int list list) \<times> (Matrix \<times> Vector)) list" where
  "posed_bodies r =
     zip [0 ..< length (vertices_m r)]
       (zip (zip (vertices_m r) (indices_m r)) (zip (R_m r) (t_m r)))"

definition body_hits ::
  "intersection \<Rightarrow> RigidBodyRenderer \<Rightarrow> Matrix \<Rightarrow> int \<Rightarrow> int \<Rightarrow> (nat \<times> real option) list" where
  "body_hits intersect r camera_matrix row col =
     concat (map (\<lambda>(body, (vertices, triangles), (R, t)).
                    map (\<lambda>triangle. (body, intersect camera_matrix row col R t vertices triangle))
                      triangles)
              (posed_bodies r))"

definition render_pixel ::
  "intersection \<Rightarrow> RigidBodyRenderer \<Rightarrow> Matrix \<Rightarrow> int \<Rightarrow> int \<Rightarrow> int \<times> fp" where
  "render_pixel intersect r camera_matrix row col =
     foldl keep_nearest no_hit (body_hits intersect r camera_matrix row col)"

definition pixels :: "int \<Rightarrow> int \<Rightarrow> (int \<times> int) list" where
  "pixels n_rows n_cols =
     map (\<lambda>p. (int (p div nat n_cols), int (p mod nat n_cols))) [0 ..< nat n_rows * nat n_cols]"

definition Render_indices_depth ::
  "intersection \<Rightarrow> RigidBodyRenderer \<Rightarrow> Matrix \<Rightarrow> int \<Rightarrow> int \<Rightarrow> int list \<times> fp list" where
  "Render_indices_depth intersect r camera_matrix n_rows n_cols =
     (map (\<lambda>(row, col). fst (render_pixel intersect r camera_matrix row col)) (pixels n_rows n_cols),
      map (\<lambda>(row, col). snd (render_pixel intersect r camera_matrix row col)) (pixels n_rows n_cols))"

definition Render_depth ::
  "intersection \<Rightarrow> RigidBodyRenderer \<Rightarrow> Matrix \<Rightarrow> int \<Rightarrow> int \<Rightarrow> fp list" where
  "Render_depth intersect r camera_matrix n_rows n_cols =
     snd (Render_indices_depth intersect r camera_matrix n_rows n_cols)"

subsection \<open>The generic Render overloads (lines 73 to 134)\<close>

text \<open>
  \<open>Render(state, depth_vector)\<close>. The two vectors are made with \<open>count_parts()\<close>
  elements, which Eigen leaves uninitialised (zeros here), and the loop overwrites the
  element \<open>i\<close> of each for every \<open>i\<close> below \<open>rotations.size()\<close>. Then \<open>set_poses\<close>, then
  the render with the renderer's own camera matrix and resolution.
\<close>

definition zero_Vector :: Vector where "zero_Vector = (0, 0, 0)"
definition zero_Matrix :: Matrix where "zero_Matrix = (zero_Vector, zero_Vector, zero_Vector)"

function extract_poses_loop ::
  "RigidbodyState \<Rightarrow> nat \<Rightarrow> Matrix list \<Rightarrow> Vector list \<Rightarrow> Matrix list \<times> Vector list" where
  "extract_poses_loop state i rotations translations =
     (if i < length rotations
      then extract_poses_loop state (i + 1)
             (rotations[i := component_rotation_matrix state i])
             (translations[i := component_position state i])
      else (rotations, translations))"
  by pat_completeness auto
termination
  by (relation "measure (\<lambda>(state, i, rotations, translations). length rotations - i)") auto

declare extract_poses_loop.simps [simp del]

definition extract_poses :: "RigidbodyState \<Rightarrow> Matrix list \<times> Vector list" where
  "extract_poses state =
     extract_poses_loop state 0 (replicate (count_parts state) zero_Matrix)
       (replicate (count_parts state) zero_Vector)"

definition Render_state ::
  "intersection \<Rightarrow> RigidBodyRenderer \<Rightarrow> RigidbodyState \<Rightarrow> error + RigidBodyRenderer \<times> fp list" where
  "Render_state intersect r state =
     (case extract_poses state of (rotations, translations) \<Rightarrow>
        (case set_poses r rotations translations of
           Inl e \<Rightarrow> Inl e
         | Inr r' \<Rightarrow>
             Inr (r', Render_depth intersect r' (camera_matrix_m r') (n_rows_m r') (n_cols_m r'))))"

text \<open>
  \<open>Render(state, Eigen::VectorXd& depth_image, double bad_value)\<close>: the image is resized
  to the number of samples, then each sample is copied when it is finite and replaced by
  \<open>bad_value\<close> when it is not. The loop counter is an \<open>int\<close> compared with a \<open>size_t\<close>; it
  is counted here as a natural number.
\<close>

function convert_loop_double :: "fp \<Rightarrow> fp list \<Rightarrow> nat \<Rightarrow> fp list \<Rightarrow> fp list" where
  "convert_loop_double bad_value depth_vector i depth_image =
     (if i < length depth_vector
      then (let value = depth_vector ! i in
            convert_loop_double bad_value depth_vector (i + 1)
              (depth_image[i := (if isfinite value then double_of value else bad_value)]))
      else depth_image)"
  by pat_completeness auto
termination
  by (relation "measure (\<lambda>(bad_value, depth_vector, i, depth_image). length depth_vector - i)") auto

declare convert_loop_double.simps [simp del]

definition resize :: "nat \<Rightarrow> fp list" where
  "resize n = replicate n (Finite 0)"

definition Render_VectorXd ::
  "intersection \<Rightarrow> RigidBodyRenderer \<Rightarrow> RigidbodyState \<Rightarrow> fp \<Rightarrow> error + RigidBodyRenderer \<times> fp list" where
  "Render_VectorXd intersect r state bad_value =
     (case Render_state intersect r state of
        Inl e \<Rightarrow> Inl e
      | Inr (r', depth_vector) \<Rightarrow>
          Inr (r', convert_loop_double bad_value depth_vector 0 (resize (length depth_vector))))"

text \<open>
  \<open>Render(state, Eigen::VectorXf& depth_image, float bad_value)\<close>: the same loop, but the
  branch for a sample that is not finite writes
  \<open>std::numeric_limits<float>::infinity()\<close>; \<open>bad_value\<close> is not read.
\<close>

function convert_loop_float :: "fp \<Rightarrow> fp list \<Rightarrow> nat \<Rightarrow> fp list \<Rightarrow> fp list" where
  "convert_loop_float bad_value depth_vector i depth_image =
     (if i < length depth_vector
      then (let value = depth_vector ! i in
            convert_loop_float bad_value depth_vector (i + 1)
              (depth_image[i := (if isfinite value then float_of value else infinity)]))
      else depth_image)"
  by pat_completeness auto
termination
  by (relation "measure (\<lambda>(bad_value, depth_vector, i, depth_image). length depth_vector - i)") auto

declare convert_loop_float.simps [simp del]

definition Render_VectorXf ::
  "intersection \<Rightarrow> RigidBodyRenderer \<Rightarrow> RigidbodyState \<Rightarrow> fp \<Rightarrow> error + RigidBodyRenderer \<times> fp list" where
  "Render_VectorXf intersect r state bad_value =
     (case Render_state intersect r state of
        Inl e \<Rightarrow> Inl e
      | Inr (r', depth_vector) \<Rightarrow>
          Inr (r', convert_loop_float bad_value depth_vector 0 (resize (length depth_vector))))"

subsection \<open>A scene for the worked examples\<close>

text \<open>
  One body, one triangle with unit legs in the plane \<open>z = 1\<close>, the identity pose, a
  camera with the identity matrix and one pixel; a state of one part that moves the body
  by \<open>(0, 0, 2)\<close>; and two stand-ins for the geometry: the ray meets every triangle at
  the depth 1, or at the depth \<open>-1\<close> (behind the camera).
\<close>

definition identity_Matrix :: Matrix where
  "identity_Matrix = ((1, 0, 0), (0, 1, 0), (0, 0, 1))"

definition one_triangle :: RigidBodyRenderer where
  "one_triangle =
     \<lparr>camera_matrix_m = identity_Matrix, n_rows_m = 1, n_cols_m = 1,
      vertices_m = [[(0, 0, 1), (1, 0, 1), (0, 1, 1)]], normals_m = [[(0, 0, 1)]],
      indices_m = [[[0, 1, 2]]], R_m = [identity_Matrix], t_m = [zero_Vector],
      coms_m = [(1 / 3, 1 / 3, 1)], com_weights_m = [Finite (1 / 2)]\<rparr>"

definition one_part :: RigidbodyState where
  "one_part = \<lparr>count_parts = 1, component_rotation_matrix = (\<lambda>i. identity_Matrix),
                component_position = (\<lambda>i. (0, 0, 2))\<rparr>"

definition in_front :: intersection where
  "in_front camera_matrix row col R t vertices triangle = Some 1"

definition behind_camera :: intersection where
  "behind_camera camera_matrix row col R t vertices triangle = Some (- 1)"

section \<open>Offsets, blocks and the reset loop\<close>

subsection \<open>The offset of a field of a body\<close>

lemma sint_eq_unat:
  fixes w :: "64 word"
  assumes "unat w < 2 ^ 63"
  shows "sint w = int (unat w)"
proof -
  have "int (unat w) < 2 ^ 63" using assms by (metis of_nat_less_numeral_power_cancel_iff)
  then have "uint w < 2 ^ 63" by simp
  moreover have "0 \<le> uint w" by simp
  moreover have "- (2 ^ 63) \<le> uint w"
    by (rule order_trans [of _ 0]) simp_all
  ultimately have "signed_take_bit 63 (uint w) = uint w"
    by (intro signed_take_bit_int_eq_self) simp_all
  then show ?thesis by (simp add: sint_uint)
qed

lemma body_offset_unat:
  assumes "unat i < 2 ^ 32" "k < 13"
  shows "unat (body_offset i k) = 13 * unat i + k"
  using assms by (simp add: body_offset_def COUNT_PER_BODY_def unat_word_ariths unat_of_nat)

lemma body_offset_sint:
  assumes "unat i < 2 ^ 32" "k < 13"
  shows "0 \<le> sint (body_offset i k)" and "nat (sint (body_offset i k)) = 13 * unat i + k"
proof -
  have "unat (body_offset i k) < 2 ^ 63"
    using assms by (simp add: body_offset_unat)
  then have e: "sint (body_offset i k) = int (unat (body_offset i k))"
    by (rule sint_eq_unat)
  show "0 \<le> sint (body_offset i k)" unfolding e by simp
  show "nat (sint (body_offset i k)) = 13 * unat i + k"
    unfolding e using assms by (simp only: nat_int body_offset_unat)
qed

lemma in_rows_body:
  assumes "unat i < 2 ^ 32" "k < 13"
  shows "in_rows n (body_offset i k) v = (13 * unat i + k + n \<le> length v)"
  using assms by (simp add: in_rows_def body_offset_sint)

lemma take_drop_nths:
  "i + n \<le> length v \<Longrightarrow> take n (drop i v) = map (\<lambda>j. v ! j) [i ..< i + n]"
  by (auto simp: list_eq_iff_nth_eq)

lemma middleRows_body:
  assumes "unat i < 2 ^ 32" "k < 13"
  shows "middleRows n (body_offset i k) v =
     (if 13 * unat i + k + n \<le> length v
      then Inr (map (\<lambda>j. v ! j) [13 * unat i + k ..< 13 * unat i + k + n])
      else Inl EigenAssertion)"
  using assms by (simp add: middleRows_def in_rows_body body_offset_sint take_drop_nths)

lemma length_assign_coeffs [simp]: "length (assign_coeffs k xs v) = length v"
  by (induction xs arbitrary: k v) auto

lemma nth_assign_coeffs:
  "k + length xs \<le> length v \<Longrightarrow> j < length v \<Longrightarrow>
   assign_coeffs k xs v ! j = (if k \<le> j \<and> j < k + length xs then xs ! (j - k) else v ! j)"
proof (induction xs arbitrary: k v)
  case Nil
  then show ?case by auto
next
  case (Cons x xs)
  have "j - k = Suc m \<Longrightarrow> j - Suc k = m" for m by arith
  with Cons show ?case
    by (auto simp: nth_list_update nth_Cons split: nat.splits)
qed

subsection \<open>The loop of reset_quaternions\<close>

lemma quat_block_arith:
  fixes i j :: nat
  shows "(13 * i + 3 \<le> j \<and> j < 13 * i + 7) = (j div 13 = i \<and> 3 \<le> j mod 13 \<and> j mod 13 < 7)"
proof
  assume a: "13 * i + 3 \<le> j \<and> j < 13 * i + 7"
  define r where "r = j - 13 * i"
  have j: "j = r + i * 13" and r: "r < 13" "3 \<le> r" "r < 7"
    using a unfolding r_def by linarith+
  have "j div 13 = i" "j mod 13 = r"
    unfolding j using r(1) by simp_all
  with r show "j div 13 = i \<and> 3 \<le> j mod 13 \<and> j mod 13 < 7" by simp
next
  assume b: "j div 13 = i \<and> 3 \<le> j mod 13 \<and> j mod 13 < 7"
  have "j = 13 * (j div 13) + j mod 13" by simp
  with b have "j = 13 * i + j mod 13" by simp
  with b show "13 * i + 3 \<le> j \<and> j < 13 * i + 7" by linarith
qed

lemma identity_coeffs: "coeffs (Quaternion_Identity :: ('a::{zero,one}) Quaternion) = [0, 0, 0, 1]"
  by (simp add: coeffs_def Quaternion_Identity_def Quaternion_wxyz_def)

lemma identity_nth:
  fixes i j :: nat
  assumes "13 * i + 3 \<le> j" "j < 13 * i + 7"
  shows "[0, 0, 0, 1 :: 'a::{zero,one}] ! (j - (13 * i + 3)) = (if j mod 13 = 6 then 1 else 0)"
proof -
  from assms consider "j = 13 * i + 3" | "j = 13 * i + 4" | "j = 13 * i + 5" | "j = 13 * i + 6"
    by arith
  then show ?thesis
    by cases simp_all
qed

lemma reset_step:
  fixes s :: "('a::{zero,one}) RigidBodySystem"
  assumes "i < unat (countBodies s)"
  shows "middleRows_assign 4 (body_offset (of_nat i) 3) (coeffs Quaternion_Identity) (state_vector s) =
     (if 13 * i + 7 \<le> length (state_vector s)
      then Inr (assign_coeffs (13 * i + 3) [0, 0, 0, 1] (state_vector s))
      else Inl EigenAssertion)"
proof -
  have "unat (countBodies s) < 2 ^ 32"
    using unsigned_less [of "countBodies s"] by simp
  with assms have lt: "i < 2 ^ 32" by simp
  then have u: "unat (of_nat i :: 64 word) = i"
    by (simp add: unat_of_nat)
  have b: "unat (of_nat i :: 64 word) < 2 ^ 32" using lt u by simp
  show ?thesis
    using in_rows_body [OF b, of 3 4 "state_vector s"] body_offset_sint(2) [OF b, of 3]
    by (simp add: middleRows_assign_def identity_coeffs u)
qed

lemma reset_loop_stop:
  "\<not> i < unat (countBodies s) \<Longrightarrow> reset_quaternions_loop i s = Inr s"
  by (subst reset_quaternions_loop.simps) simp

lemma reset_loop_fail:
  fixes s :: "('a::{zero,one}) RigidBodySystem"
  assumes "i < unat (countBodies s)" "\<not> 13 * i + 7 \<le> length (state_vector s)"
  shows "reset_quaternions_loop i s = Inl EigenAssertion"
  by (subst reset_quaternions_loop.simps) (simp add: assms reset_step)

lemma reset_loop_go:
  fixes s :: "('a::{zero,one}) RigidBodySystem"
  assumes "i < unat (countBodies s)" "13 * i + 7 \<le> length (state_vector s)"
  shows "reset_quaternions_loop i s =
    reset_quaternions_loop (i + 1) (s\<lparr>state_vector := assign_coeffs (13 * i + 3) [0, 0, 0, 1] (state_vector s)\<rparr>)"
  by (subst reset_quaternions_loop.simps) (simp add: assms reset_step)

lemma reset_loop_result:
  fixes s :: "('a::{zero,one}) RigidBodySystem"
  assumes "reset_quaternions_loop i s = Inr s'"
  shows "count_bodies s' = count_bodies s \<and> length (state_vector s') = length (state_vector s) \<and>
    (\<forall>j < length (state_vector s). state_vector s' ! j =
       (if i \<le> j div 13 \<and> j div 13 < unat (count_bodies s) \<and> 3 \<le> j mod 13 \<and> j mod 13 < 7
        then (if j mod 13 = 6 then 1 else 0) else state_vector s ! j)) \<and>
    (i < unat (count_bodies s) \<longrightarrow> 13 * unat (count_bodies s) \<le> length (state_vector s) + 6)"
  using assms
proof (induction i s arbitrary: s' rule: reset_quaternions_loop.induct)
  case (1 i s)
  show ?case
  proof (cases "i < unat (countBodies s)")
    case False
    with "1.prems" have "s' = s"
      by (simp add: reset_loop_stop)
    with False show ?thesis by (auto simp: countBodies_def)
  next
    case True
    define v where "v = assign_coeffs (13 * i + 3) [0, 0, 0, 1] (state_vector s)"
    have fits: "13 * i + 7 \<le> length (state_vector s)"
    proof (rule ccontr)
      assume "\<not> 13 * i + 7 \<le> length (state_vector s)"
      from reset_loop_fail [OF True this] "1.prems" show False by simp
    qed
    with True have step: "middleRows_assign 4 (body_offset (of_nat i) 3) (coeffs Quaternion_Identity)
        (state_vector s) = Inr v"
      by (simp add: reset_step v_def)
    have rec: "reset_quaternions_loop (i + 1) (s\<lparr>state_vector := v\<rparr>) = Inr s'"
      using reset_loop_go [OF True fits] "1.prems" by (simp add: v_def)
    note IH0 = "1.IH" [OF True step rec]
    have IH1: "count_bodies s' = count_bodies s" "length (state_vector s') = length v"
      using IH0 by simp_all
    have IH2: "state_vector s' ! j =
        (if i + 1 \<le> j div 13 \<and> j div 13 < unat (count_bodies s) \<and> 3 \<le> j mod 13 \<and> j mod 13 < 7
         then (if j mod 13 = 6 then 1 else 0) else v ! j)" if "j < length v" for j
      using conjunct1 [OF conjunct2 [OF conjunct2 [OF IH0]]] that by simp
    have IH3: "i + 1 < unat (count_bodies s) \<Longrightarrow> 13 * unat (count_bodies s) \<le> length v + 6"
      using conjunct2 [OF conjunct2 [OF conjunct2 [OF IH0]]] by simp
    have lv: "length v = length (state_vector s)" by (simp add: v_def)
    have nv: "v ! j = (if 13 * i + 3 \<le> j \<and> j < 13 * i + 7 then (if j mod 13 = 6 then 1 else 0)
        else state_vector s ! j)" if "j < length (state_vector s)" for j
    proof -
      have "v ! j = (if 13 * i + 3 \<le> j \<and> j < 13 * i + 3 + length [0, 0, 0, 1 :: 'a]
          then [0, 0, 0, 1] ! (j - (13 * i + 3)) else state_vector s ! j)"
        unfolding v_def by (rule nth_assign_coeffs) (use fits that in simp_all)
      then show ?thesis
        using identity_nth [of i j, where 'a = 'a] by (simp del: assign_coeffs.simps)
    qed
    have cnt: "count_bodies s' = count_bodies s" and len: "length (state_vector s') = length (state_vector s)"
      using IH1 lv by simp_all
    have vals: "state_vector s' ! j =
       (if i \<le> j div 13 \<and> j div 13 < unat (count_bodies s) \<and> 3 \<le> j mod 13 \<and> j mod 13 < 7
        then (if j mod 13 = 6 then 1 else 0) else state_vector s ! j)"
      if j: "j < length (state_vector s)" for j
    proof -
      have a: "state_vector s' ! j =
        (if i + 1 \<le> j div 13 \<and> j div 13 < unat (count_bodies s) \<and> 3 \<le> j mod 13 \<and> j mod 13 < 7
         then (if j mod 13 = 6 then 1 else 0) else v ! j)"
        using IH2 [of j] j lv by simp
      have c: "i < unat (count_bodies s)" using True by (simp add: countBodies_def)
      have d: "(i \<le> j div 13) = (i + 1 \<le> j div 13 \<or> j div 13 = i)" by arith
      show ?thesis
      proof (cases "j div 13 = i")
        case True
        then show ?thesis
          unfolding a nv [OF j] quat_block_arith using c by simp
      next
        case False
        then show ?thesis
          unfolding a nv [OF j] quat_block_arith d by simp
      qed
    qed
    have bound: "13 * unat (count_bodies s) \<le> length (state_vector s) + 6"
    proof (cases "i + 1 < unat (count_bodies s)")
      case True
      then show ?thesis using IH3 lv by simp
    next
      case False
      with True have "unat (count_bodies s) = i + 1" by (simp add: countBodies_def)
      then show ?thesis using fits by simp
    qed
    show ?thesis
    proof (intro conjI allI impI)
      show "count_bodies s' = count_bodies s" by (rule cnt)
      show "length (state_vector s') = length (state_vector s)" by (rule len)
      show "13 * unat (count_bodies s) \<le> length (state_vector s) + 6" by (rule bound)
      show "state_vector s' ! j =
       (if i \<le> j div 13 \<and> j div 13 < unat (count_bodies s) \<and> 3 \<le> j mod 13 \<and> j mod 13 < 7
        then (if j mod 13 = 6 then 1 else 0) else state_vector s ! j)"
        if "j < length (state_vector s)" for j by (rule vals [OF that])
    qed
  qed
qed

lemma reset_loop_succeeds:
  fixes s :: "('a::{zero,one}) RigidBodySystem"
  assumes "13 * unat (count_bodies s) \<le> length (state_vector s) + 6"
  shows "\<exists>s'. reset_quaternions_loop i s = Inr s'"
  using assms
proof (induction i s rule: reset_quaternions_loop.induct)
  case (1 i s)
  show ?case
  proof (cases "i < unat (countBodies s)")
    case False
    then show ?thesis by (simp add: reset_loop_stop)
  next
    case True
    define v where "v = assign_coeffs (13 * i + 3) [0, 0, 0, 1] (state_vector s)"
    from True "1.prems" have fits: "13 * i + 7 \<le> length (state_vector s)"
      by (simp add: countBodies_def)
    with True have step: "middleRows_assign 4 (body_offset (of_nat i) 3) (coeffs Quaternion_Identity)
        (state_vector s) = Inr v"
      by (simp add: reset_step v_def)
    have "\<exists>s'. reset_quaternions_loop (i + 1) (s\<lparr>state_vector := v\<rparr>) = Inr s'"
      using "1.IH" [OF True step] "1.prems" by (simp add: v_def)
    then show ?thesis
      using reset_loop_go [OF True fits] by (simp add: v_def)
  qed
qed

subsection \<open>The blocks of a body index\<close>

lemma upt_3: "[a ..< a + 3] = [a, a + 1, a + 2]"
  by (simp add: upt_rec [of a] upt_rec [of "Suc a"] upt_rec [of "Suc (Suc a)"])

lemma upt_4: "[a ..< a + 4] = [a, a + 1, a + 2, a + 3]"
  by (simp add: upt_rec [of a] upt_rec [of "Suc a"] upt_rec [of "Suc (Suc a)"]
      upt_rec [of "Suc (Suc (Suc a))"])

lemma body_index_bounds:
  assumes "body_index s i" "holds_bodies s"
  shows "unat i < 2 ^ 32" and "13 * unat i + 13 \<le> length (state_vector s)"
proof -
  have c: "unat (countBodies s) < 2 ^ 32"
    using unsigned_less [of "countBodies s"] by simp
  from assms(1) have lt: "unat i < unat (countBodies s)" by (simp add: body_index_def)
  with c show "unat i < 2 ^ 32" by simp
  from lt have "13 * unat i + 13 \<le> 13 * unat (countBodies s)" by simp
  with assms(2) show "13 * unat i + 13 \<le> length (state_vector s)"
    by (simp add: holds_bodies_def COUNT_PER_BODY_def)
qed

lemma middleRows_of_body:
  assumes "body_index s i" "holds_bodies s" "k < 13" "k + n \<le> 13"
  shows "middleRows n (body_offset i k) (state_vector s) =
     Inr (map (\<lambda>j. state_vector s ! j) [13 * unat i + k ..< 13 * unat i + k + n])"
proof -
  note b = body_index_bounds [OF assms(1,2)]
  show ?thesis
    using middleRows_body [OF b(1) assms(3), of n "state_vector s"] b(2) assms(4) by simp
qed

lemma make_block_of_body:
  assumes "body_index s i" "holds_bodies s" "k < 13" "k + n \<le> 13"
  shows "make_block n (body_offset i k) s = Inr \<lparr>block_start = 13 * unat i + k, block_size = n\<rparr>"
proof -
  note b = body_index_bounds [OF assms(1,2)]
  show ?thesis
    using in_rows_body [OF b(1) assms(3), of n "state_vector s"] body_offset_sint(2) [OF b(1) assms(3)]
      b(2) assms(4)
    by (simp add: make_block_def)
qed

lemma get_blocks_of_body:
  assumes "body_index s i" and "holds_bodies s"
  shows "get_position s i = Inr [state_vector s ! (13 * unat i), state_vector s ! (13 * unat i + 1),
           state_vector s ! (13 * unat i + 2)]"
    and "get_orientation s i = Inr [state_vector s ! (13 * unat i + 3), state_vector s ! (13 * unat i + 4),
           state_vector s ! (13 * unat i + 5), state_vector s ! (13 * unat i + 6)]"
    and "get_linear_velocity s i = Inr [state_vector s ! (13 * unat i + 7),
           state_vector s ! (13 * unat i + 8), state_vector s ! (13 * unat i + 9)]"
    and "get_angular_velocity s i = Inr [state_vector s ! (13 * unat i + 10),
           state_vector s ! (13 * unat i + 11), state_vector s ! (13 * unat i + 12)]"
proof -
  show "get_position s i = Inr [state_vector s ! (13 * unat i), state_vector s ! (13 * unat i + 1),
           state_vector s ! (13 * unat i + 2)]"
    using middleRows_of_body [OF assms, of 0 3] upt_3 [of "13 * unat i"]
    by (simp add: get_position_def POSITION_COUNT_def POSITION_INDEX_def)
  show "get_orientation s i = Inr [state_vector s ! (13 * unat i + 3), state_vector s ! (13 * unat i + 4),
           state_vector s ! (13 * unat i + 5), state_vector s ! (13 * unat i + 6)]"
    using middleRows_of_body [OF assms, of 3 4] upt_4 [of "13 * unat i + 3"]
    by (simp add: get_orientation_def ORIENTATION_COUNT_def ORIENTATION_INDEX_def add.commute)
  show "get_linear_velocity s i = Inr [state_vector s ! (13 * unat i + 7),
           state_vector s ! (13 * unat i + 8), state_vector s ! (13 * unat i + 9)]"
    using middleRows_of_body [OF assms, of 7 3] upt_3 [of "13 * unat i + 7"]
    by (simp add: get_linear_velocity_def LINEAR_VELOCITY_COUNT_def LINEAR_VELOCITY_INDEX_def add.commute)
  show "get_angular_velocity s i = Inr [state_vector s ! (13 * unat i + 10),
           state_vector s ! (13 * unat i + 11), state_vector s ! (13 * unat i + 12)]"
    using middleRows_of_body [OF assms, of 10 3] upt_3 [of "13 * unat i + 10"]
    by (simp add: get_angular_velocity_def ANGULAR_VELOCITY_COUNT_def ANGULAR_VELOCITY_INDEX_def add.commute)
qed

lemma views_of_body:
  assumes "body_index s i" and "holds_bodies s"
  shows "position s i = Inr \<lparr>block_start = 13 * unat i, block_size = 3\<rparr>"
    and "orientation s i = Inr \<lparr>block_start = 13 * unat i + 3, block_size = 4\<rparr>"
    and "linear_velocity s i = Inr \<lparr>block_start = 13 * unat i + 7, block_size = 3\<rparr>"
    and "angular_velocity s i = Inr \<lparr>block_start = 13 * unat i + 10, block_size = 3\<rparr>"
    and "single_body s i = Inr \<lparr>block_start = 13 * unat i, block_size = 13\<rparr>"
  using make_block_of_body [OF assms, of 0 3] make_block_of_body [OF assms, of 3 4]
    make_block_of_body [OF assms, of 7 3] make_block_of_body [OF assms, of 10 3]
    make_block_of_body [OF assms, of 0 13]
  by (simp_all add: position_def orientation_def linear_velocity_def angular_velocity_def
      single_body_def POSITION_COUNT_def POSITION_INDEX_def ORIENTATION_COUNT_def
      ORIENTATION_INDEX_def LINEAR_VELOCITY_COUNT_def LINEAR_VELOCITY_INDEX_def
      ANGULAR_VELOCITY_COUNT_def ANGULAR_VELOCITY_INDEX_def COUNT_PER_BODY_def)

text \<open>
  Claim C4. For a body index \<open>i\<close> of a state that holds its bodies, the accessors
  address the fixed layout: the position is at the flat indices \<open>13i .. 13i+2\<close>, the
  orientation at \<open>13i+3 .. 13i+6\<close>, the linear velocity at \<open>13i+7 .. 13i+9\<close>, the
  angular velocity at \<open>13i+10 .. 13i+12\<close>, and the block of the whole body is the 13
  components from \<open>13i\<close>. Each get function returns the components its writable view
  covers.
\<close>

theorem accessors_address_layout:
  assumes "body_index s i" and "holds_bodies s"
  shows "get_position s i = Inr [state_vector s ! (13 * unat i), state_vector s ! (13 * unat i + 1),
           state_vector s ! (13 * unat i + 2)]
    \<and> get_orientation s i = Inr [state_vector s ! (13 * unat i + 3), state_vector s ! (13 * unat i + 4),
           state_vector s ! (13 * unat i + 5), state_vector s ! (13 * unat i + 6)]
    \<and> get_linear_velocity s i = Inr [state_vector s ! (13 * unat i + 7),
           state_vector s ! (13 * unat i + 8), state_vector s ! (13 * unat i + 9)]
    \<and> get_angular_velocity s i = Inr [state_vector s ! (13 * unat i + 10),
           state_vector s ! (13 * unat i + 11), state_vector s ! (13 * unat i + 12)]
    \<and> (\<exists>b. position s i = Inr b
          \<and> block_indices b = [13 * unat i, 13 * unat i + 1, 13 * unat i + 2]
          \<and> Inr (block_read s b) = get_position s i)
    \<and> (\<exists>b. orientation s i = Inr b
          \<and> block_indices b = [13 * unat i + 3, 13 * unat i + 4, 13 * unat i + 5, 13 * unat i + 6]
          \<and> Inr (block_read s b) = get_orientation s i)
    \<and> (\<exists>b. linear_velocity s i = Inr b
          \<and> block_indices b = [13 * unat i + 7, 13 * unat i + 8, 13 * unat i + 9]
          \<and> Inr (block_read s b) = get_linear_velocity s i)
    \<and> (\<exists>b. angular_velocity s i = Inr b
          \<and> block_indices b = [13 * unat i + 10, 13 * unat i + 11, 13 * unat i + 12]
          \<and> Inr (block_read s b) = get_angular_velocity s i)
    \<and> (\<exists>b. single_body s i = Inr b
          \<and> block_indices b = [13 * unat i ..< 13 * unat i + 13])"
proof -
  note g = get_blocks_of_body [OF assms]
  note w = views_of_body [OF assms]
  have p: "\<exists>b. position s i = Inr b
          \<and> block_indices b = [13 * unat i, 13 * unat i + 1, 13 * unat i + 2]
          \<and> Inr (block_read s b) = get_position s i"
    using upt_3 [of "13 * unat i"] by (simp add: w(1) g(1) block_indices_def block_read_def add.commute)
  have q: "\<exists>b. orientation s i = Inr b
          \<and> block_indices b = [13 * unat i + 3, 13 * unat i + 4, 13 * unat i + 5, 13 * unat i + 6]
          \<and> Inr (block_read s b) = get_orientation s i"
    using upt_4 [of "13 * unat i + 3"] by (simp add: w(2) g(2) block_indices_def block_read_def add.commute)
  have l: "\<exists>b. linear_velocity s i = Inr b
          \<and> block_indices b = [13 * unat i + 7, 13 * unat i + 8, 13 * unat i + 9]
          \<and> Inr (block_read s b) = get_linear_velocity s i"
    using upt_3 [of "13 * unat i + 7"] by (simp add: w(3) g(3) block_indices_def block_read_def add.commute)
  have a: "\<exists>b. angular_velocity s i = Inr b
          \<and> block_indices b = [13 * unat i + 10, 13 * unat i + 11, 13 * unat i + 12]
          \<and> Inr (block_read s b) = get_angular_velocity s i"
    using upt_3 [of "13 * unat i + 10"] by (simp add: w(4) g(4) block_indices_def block_read_def add.commute)
  have b: "\<exists>b. single_body s i = Inr b \<and> block_indices b = [13 * unat i ..< 13 * unat i + 13]"
    by (simp add: w(5) block_indices_def)
  from g p q l a b show ?thesis by (intro conjI)
qed

text \<open>The second of two bodies: its components are the flat indices 13 to 25.\<close>

theorem accessors_address_layout_witness:
  "body_index two_bodies 1 \<and> holds_bodies two_bodies
   \<and> get_position two_bodies 1 = Inr [51, 52, 53]
   \<and> get_orientation two_bodies 1 = Inr [61, 62, 63, 64]
   \<and> get_linear_velocity two_bodies 1 = Inr [71, 72, 73]
   \<and> get_angular_velocity two_bodies 1 = Inr [81, 82, 83]
   \<and> (\<exists>b. orientation two_bodies 1 = Inr b \<and> block_indices b = [16, 17, 18, 19]
         \<and> block_read two_bodies b = [61, 62, 63, 64])"
proof -
  have h1: "body_index two_bodies 1" and h2: "holds_bodies two_bodies"
    by (simp_all add: body_index_def holds_bodies_def two_bodies_def Base_def countBodies_def
        COUNT_PER_BODY_def)
  have v: "state_vector two_bodies = [11, 12, 13, 21, 22, 23, 24, 31, 32, 33, 41, 42, 43,
                      51, 52, 53, 61, 62, 63, 64, 71, 72, 73, 81, 82, 83]"
    by (simp add: two_bodies_def Base_def)
  show ?thesis
    using accessors_address_layout [OF h1 h2] h1 h2 by (auto simp add: v)
qed

subsection \<open>What the constructors build\<close>

lemma reset_quaternions_result:
  fixes s :: "('a::{zero,one}) RigidBodySystem"
  assumes "reset_quaternions s = Inr s'"
  shows "count_bodies s' = count_bodies s"
    and "length (state_vector s') = length (state_vector s)"
    and "j < length (state_vector s) \<Longrightarrow> state_vector s' ! j =
       (if j div 13 < unat (count_bodies s) \<and> 3 \<le> j mod 13 \<and> j mod 13 < 7
        then (if j mod 13 = 6 then 1 else 0) else state_vector s ! j)"
    and "0 < unat (count_bodies s) \<Longrightarrow> 13 * unat (count_bodies s) \<le> length (state_vector s) + 6"
proof -
  note r = reset_loop_result [OF assms [unfolded reset_quaternions_def]]
  show "count_bodies s' = count_bodies s" using r by simp
  show "length (state_vector s') = length (state_vector s)" using r by simp
  show "state_vector s' ! j =
       (if j div 13 < unat (count_bodies s) \<and> 3 \<le> j mod 13 \<and> j mod 13 < 7
        then (if j mod 13 = 6 then 1 else 0) else state_vector s ! j)"
    if "j < length (state_vector s)"
    using conjunct1 [OF conjunct2 [OF conjunct2 [OF r]]] that by simp
  show "13 * unat (count_bodies s) \<le> length (state_vector s) + 6" if "0 < unat (count_bodies s)"
    using conjunct2 [OF conjunct2 [OF conjunct2 [OF r]]] that by simp
qed

lemma wrapped_size:
  fixes n :: "32 word"
  assumes "0 < unat n \<Longrightarrow> 13 * unat n \<le> unat (n * 13) + 6"
  shows "unat (n * 13) = 13 * unat n" and "13 * unat n < 2 ^ 32"
proof -
  have m: "unat (n * 13) = (13 * unat n) mod 2 ^ 32"
    by (simp add: unat_word_ariths mult.commute)
  have lt: "13 * unat n < 2 ^ 32"
  proof (rule ccontr)
    assume "\<not> 13 * unat n < 2 ^ 32"
    then have ge: "(2 :: nat) ^ 32 \<le> 13 * unat n" by simp
    then have pos: "0 < unat n" by (cases "unat n = 0") simp_all
    have "(13 * unat n) mod 2 ^ 32 = (13 * unat n - 2 ^ 32) mod 2 ^ 32"
      using ge by (simp add: le_mod_geq)
    also have "\<dots> \<le> 13 * unat n - 2 ^ 32" by (rule mod_less_eq_dividend)
    finally have "unat (n * 13) + 2 ^ 32 \<le> 13 * unat n" using ge m by simp
    with assms [OF pos] show False by simp
  qed
  then show "13 * unat n < 2 ^ 32" .
  from lt m show "unat (n * 13) = 13 * unat n" by simp
qed

lemma zero_constructed:
  fixes s :: "('a::{zero,one}) RigidBodySystem"
  assumes "FullRigidBodySystem_fixed body_size = Inr s \<or> FullRigidBodySystem_dynamic body_size n = Inr s"
  shows "length (state_vector s) = 13 * unat (countBodies s)"
    and "length (state_vector s) < 2 ^ 32"
    and "j < length (state_vector s) \<Longrightarrow> state_vector s ! j = (if j mod 13 = 6 then 1 else 0)"
proof -
  have "\<exists>m c. reset_quaternions (Base (Zero m) c :: 'a RigidBodySystem) = Inr s \<and>
     (0 < unat c \<longrightarrow> 13 * unat c \<le> m + 6 \<longrightarrow> m = 13 * unat c) \<and> (unat c = 0 \<longrightarrow> m = 0) \<and> m < 2 ^ 32"
    using assms
  proof
    assume f: "FullRigidBodySystem_fixed body_size = Inr s"
    then have b: "- 1 < body_size" "body_size * 13 < 2 ^ 31"
      and r: "reset_quaternions (Base (Zero (nat (body_size * 13))) (of_int body_size) :: 'a RigidBodySystem) = Inr s"
      by (simp_all add: FullRigidBodySystem_fixed_def SIZE_STATE_def COUNT_PER_BODY_def split: if_splits)
    have "body_size < 2 ^ 32" using b by simp
    then have u: "unat (of_int body_size :: 32 word) = nat body_size"
      using b by (simp add: unat_eq_nat_uint uint_word_of_int take_bit_int_eq_self)
    have "nat (body_size * 13) = 13 * nat body_size" using b by (simp add: nat_mult_distrib)
    moreover have "nat (body_size * 13) < 2 ^ 32" using b by simp
    ultimately show ?thesis using r u by (intro exI [of _ "nat (body_size * 13)"] exI [of _ "of_int body_size"]) simp
  next
    assume d: "FullRigidBodySystem_dynamic body_size n = Inr s"
    then have r: "reset_quaternions (Base (Zero (unat (n * 13))) n :: 'a RigidBodySystem) = Inr s"
      by (simp add: FullRigidBodySystem_dynamic_def COUNT_PER_BODY_def split: if_splits)
    have "unat (n * 13) < 2 ^ 32" using unsigned_less [of "n * 13"] by simp
    moreover have "unat n = 0 \<longrightarrow> unat (n * 13) = 0" by (simp add: unat_eq_0)
    moreover have "0 < unat n \<longrightarrow> 13 * unat n \<le> unat (n * 13) + 6 \<longrightarrow> unat (n * 13) = 13 * unat n"
      using wrapped_size(1) [of n] by blast
    ultimately show ?thesis using r by (intro exI [of _ "unat (n * 13)"] exI [of _ n]) simp
  qed
  then obtain m c where r: "reset_quaternions (Base (Zero m) c :: 'a RigidBodySystem) = Inr s"
    and w: "0 < unat c \<longrightarrow> 13 * unat c \<le> m + 6 \<longrightarrow> m = 13 * unat c" and z: "unat c = 0 \<longrightarrow> m = 0"
    and lt: "m < 2 ^ 32" by (elim exE conjE) (rule that)
  note q = reset_quaternions_result [OF r]
  have c: "count_bodies s = c" and l: "length (state_vector s) = m"
    using q(1,2) by (simp_all add: Base_def Zero_def)
  have m: "m = 13 * unat c"
  proof (cases "unat c = 0")
    case True
    then show ?thesis using z by simp
  next
    case False
    then show ?thesis using w q(4) by (simp add: Base_def Zero_def)
  qed
  show "length (state_vector s) = 13 * unat (countBodies s)"
    using l m c by (simp add: countBodies_def)
  show "length (state_vector s) < 2 ^ 32" using l lt by simp
  show "state_vector s ! j = (if j mod 13 = 6 then 1 else 0)" if "j < length (state_vector s)"
  proof -
    have j: "j < m" using that l by simp
    then have "j div 13 < unat c" using m by (simp add: div_less_iff_less_mult mult.commute)
    then show ?thesis
      using q(3) [of j] j by (auto simp add: Base_def Zero_def)
  qed
qed

lemma constructed_blocks:
  fixes s :: "('a::{zero,one}) RigidBodySystem"
  assumes c: "FullRigidBodySystem_fixed body_size = Inr s \<or> FullRigidBodySystem_dynamic body_size n = Inr s"
    and i: "body_index s i"
  shows "holds_bodies s"
    and "get_position s i = Inr [0, 0, 0]"
    and "get_orientation s i = Inr [0, 0, 0, 1]"
    and "get_linear_velocity s i = Inr [0, 0, 0]"
    and "get_angular_velocity s i = Inr [0, 0, 0]"
    and "get_quaternion s i = Inr Quaternion_Identity"
proof -
  note z = zero_constructed [OF c]
  show h: "holds_bodies s"
    using z(1) by (simp add: holds_bodies_def COUNT_PER_BODY_def)
  note b = body_index_bounds [OF i h]
  have v: "state_vector s ! (13 * unat i + k) = (if k = 6 then 1 else 0)" if "k < 13" for k
    using z(3) [of "13 * unat i + k"] b(2) that by simp
  note g = get_blocks_of_body [OF i h]
  show "get_position s i = Inr [0, 0, 0]"
    using g(1) v [of 0] v [of 1] v [of 2] by simp
  show o: "get_orientation s i = Inr [0, 0, 0, 1]"
    using g(2) v [of 3] v [of 4] v [of 5] v [of 6] by simp
  show "get_linear_velocity s i = Inr [0, 0, 0]"
    using g(3) v [of 7] v [of 8] v [of 9] by simp
  show "get_angular_velocity s i = Inr [0, 0, 0]"
    using g(4) v [of 10] v [of 11] v [of 12] by simp
  show "get_quaternion s i = Inr Quaternion_Identity"
    by (simp add: get_quaternion_def o Quaternion_of_vector_def Quaternion_Identity_def
        Quaternion_wxyz_def)
qed

lemma fixed_succeeds:
  assumes "0 \<le> body_size" "body_size * 13 < 2 ^ 31"
  shows "\<exists>s. (FullRigidBodySystem_fixed body_size :: error + ('a::{zero,one}) RigidBodySystem) = Inr s"
proof -
  have "body_size < 2 ^ 32" using assms by simp
  then have u: "unat (of_int body_size :: 32 word) = nat body_size"
    using assms by (simp add: unat_eq_nat_uint uint_word_of_int take_bit_int_eq_self)
  have "nat (body_size * 13) = 13 * nat body_size" using assms by (simp add: nat_mult_distrib)
  then have "\<exists>s. reset_quaternions_loop 0
      (Base (Zero (nat (body_size * 13))) (of_int body_size) :: 'a RigidBodySystem) = Inr s"
    using u by (intro reset_loop_succeeds) (simp add: Base_def Zero_def)
  then show ?thesis
    using assms
    by (simp add: FullRigidBodySystem_fixed_def SIZE_STATE_def COUNT_PER_BODY_def reset_quaternions_def)
qed

lemma dynamic_succeeds:
  assumes "13 * unat n < 2 ^ 32"
  shows "\<exists>s. (FullRigidBodySystem_dynamic (- 1) n :: error + ('a::{zero,one}) RigidBodySystem) = Inr s"
proof -
  have "unat (n * 13) = 13 * unat n"
    using assms by (simp add: unat_word_ariths mult.commute)
  then have "\<exists>s. reset_quaternions_loop 0 (Base (Zero (unat (n * 13))) n :: 'a RigidBodySystem) = Inr s"
    by (intro reset_loop_succeeds) (simp add: Base_def Zero_def)
  then show ?thesis
    by (simp add: FullRigidBodySystem_dynamic_def COUNT_PER_BODY_def reset_quaternions_def)
qed

lemma dynamic_wraps:
  assumes "2 ^ 32 \<le> 13 * unat n"
  shows "\<nexists>s. (FullRigidBodySystem_dynamic body_size n :: error + ('a::{zero,one}) RigidBodySystem) = Inr s"
proof
  assume "\<exists>s. (FullRigidBodySystem_dynamic body_size n :: error + 'a RigidBodySystem) = Inr s"
  then obtain s :: "'a RigidBodySystem" where s: "FullRigidBodySystem_dynamic body_size n = Inr s" ..
  then have r: "reset_quaternions (Base (Zero (unat (n * 13))) n :: 'a RigidBodySystem) = Inr s"
    by (simp add: FullRigidBodySystem_dynamic_def COUNT_PER_BODY_def split: if_splits)
  have "0 < unat n \<Longrightarrow> 13 * unat n \<le> unat (n * 13) + 6"
    using reset_quaternions_result(4) [OF r] by (simp add: Base_def Zero_def)
  from wrapped_size(2) [OF this] assms show False by simp
qed

lemma from_vector_result:
  assumes "FullRigidBodySystem_from_vector body_size v = Inr s"
  shows "s = Base v (of_nat (length v div 13))" and "holds_bodies s"
proof -
  show e: "s = Base v (of_nat (length v div 13))"
    using assms by (simp add: FullRigidBodySystem_from_vector_def COUNT_PER_BODY_def split: if_splits)
  have "unat (of_nat (length v div 13) :: 32 word) \<le> length v div 13"
    by (simp add: unat_of_nat)
  then have "unat (of_nat (length v div 13) :: 32 word) * 13 \<le> length v div 13 * 13"
    by simp
  also have "\<dots> \<le> length v" by simp
  finally have "unat (of_nat (length v div 13) :: 32 word) * 13 \<le> length v" .
  then show "holds_bodies s"
    by (simp add: e holds_bodies_def Base_def countBodies_def COUNT_PER_BODY_def)
qed

lemma from_vector_dynamic:
  "FullRigidBodySystem_from_vector (- 1) v = Inr (Base v (of_nat (length v div 13)))"
  by (simp add: FullRigidBodySystem_from_vector_def COUNT_PER_BODY_def)

lemma identity_norm: "quaternion_norm Quaternion_Identity = 1"
  by (simp add: quaternion_norm_def squaredNorm_def Quaternion_Identity_def Quaternion_wxyz_def)

section \<open>The claims about the state vector\<close>

text \<open>
  Claim C1, as the code has it. The two constructors that start from a zero vector reset
  the quaternions: afterwards the vector is the 13 components of each body and the
  orientation block of every body holds the identity rotation, whose norm is 1; they
  return for every body count whose 13-fold does not overflow. The constructor with an
  initial value has an empty body and resets nothing: the state is the given sequence,
  component by component, so an orientation block holds whatever the sequence holds
  there.
\<close>

theorem zero_constructors_reset_quaternions:
  fixes s t :: "real RigidBodySystem"
  shows "((FullRigidBodySystem_fixed body_size = Inr s \<or> FullRigidBodySystem_dynamic body_size n = Inr s)
          \<and> body_index s i
        \<longrightarrow> length (state_vector s) = COUNT_PER_BODY * unat (countBodies s)
          \<and> get_orientation s i = Inr (coeffs Quaternion_Identity)
          \<and> get_quaternion s i = Inr Quaternion_Identity
          \<and> quaternion_norm Quaternion_Identity = 1)
    \<and> (FullRigidBodySystem_from_vector body_size v = Inr t \<longrightarrow> state_vector t = v)
    \<and> (0 \<le> body_size \<and> body_size * 13 < 2 ^ 31
        \<longrightarrow> (\<exists>u :: real RigidBodySystem. FullRigidBodySystem_fixed body_size = Inr u))
    \<and> (13 * unat n < 2 ^ 32
        \<longrightarrow> (\<exists>u :: real RigidBodySystem. FullRigidBodySystem_dynamic (- 1) n = Inr u))"
proof (intro conjI impI)
  assume a: "(FullRigidBodySystem_fixed body_size = Inr s \<or> FullRigidBodySystem_dynamic body_size n = Inr s)
          \<and> body_index s i"
  then have c: "FullRigidBodySystem_fixed body_size = Inr s \<or> FullRigidBodySystem_dynamic body_size n = Inr s"
    and i: "body_index s i" by simp_all
  show "length (state_vector s) = COUNT_PER_BODY * unat (countBodies s)"
    using zero_constructed(1) [OF c] by (simp add: COUNT_PER_BODY_def)
  show "get_orientation s i = Inr (coeffs Quaternion_Identity)"
    using constructed_blocks(3) [OF c i] by (simp add: identity_coeffs)
  show "get_quaternion s i = Inr Quaternion_Identity"
    by (rule constructed_blocks(6) [OF c i])
  show "quaternion_norm Quaternion_Identity = 1"
    by (rule identity_norm)
next
  assume "FullRigidBodySystem_from_vector body_size v = Inr t"
  from from_vector_result(1) [OF this] show "state_vector t = v"
    by (simp add: Base_def)
next
  assume "0 \<le> body_size \<and> body_size * 13 < 2 ^ 31"
  then show "\<exists>u :: real RigidBodySystem. FullRigidBodySystem_fixed body_size = Inr u"
    by (intro fixed_succeeds) simp_all
next
  assume "13 * unat n < 2 ^ 32"
  then show "\<exists>u :: real RigidBodySystem. FullRigidBodySystem_dynamic (- 1) n = Inr u"
    by (rule dynamic_succeeds)
qed

text \<open>
  Two bodies of a dynamic size: the second body's quaternion is the identity. One body
  from a sequence: the sequence is kept.
\<close>

theorem zero_constructors_reset_quaternions_witness:
  "FullRigidBodySystem_dynamic (- 1) 2 =
     Inr (Base [0, 0, 0, 0, 0, 0, 1, 0, 0, 0, 0, 0, 0, 0, 0, 0, 0, 0, 0, 1, 0, 0, 0, 0, 0, 0 :: real] 2)
   \<and> body_index (Base [0, 0, 0, 0, 0, 0, 1, 0, 0, 0, 0, 0, 0, 0, 0, 0, 0, 0, 0, 1, 0, 0, 0, 0, 0, 0 :: real] 2) 1
   \<and> get_orientation
        (Base [0, 0, 0, 0, 0, 0, 1, 0, 0, 0, 0, 0, 0, 0, 0, 0, 0, 0, 0, 1, 0, 0, 0, 0, 0, 0 :: real] 2) 1
      = Inr [0, 0, 0, 1]
   \<and> FullRigidBodySystem_from_vector (- 1) [1, 2, 3, 0, 0, 0, 2, 0, 0, 0, 0, 0, 0 :: real]
      = Inr (Base [1, 2, 3, 0, 0, 0, 2, 0, 0, 0, 0, 0, 0] 1)
   \<and> state_vector (Base [1, 2, 3, 0, 0, 0, 2, 0, 0, 0, 0, 0, 0 :: real] 1)
      = [1, 2, 3, 0, 0, 0, 2, 0, 0, 0, 0, 0, 0]"
proof -
  define s :: "real RigidBodySystem"
    where "s = Base [0, 0, 0, 0, 0, 0, 1, 0, 0, 0, 0, 0, 0, 0, 0, 0, 0, 0, 0, 1, 0, 0, 0, 0, 0, 0] 2"
  define t :: "real RigidBodySystem" where "t = Base [1, 2, 3, 0, 0, 0, 2, 0, 0, 0, 0, 0, 0] 1"
  have d: "FullRigidBodySystem_dynamic (- 1) 2 = Inr s"
    unfolding s_def by code_simp
  have i: "body_index s 1"
    by (simp add: s_def body_index_def countBodies_def Base_def)
  have f: "FullRigidBodySystem_from_vector (- 1) [1, 2, 3, 0, 0, 0, 2, 0, 0, 0, 0, 0, 0 :: real] = Inr t"
    by (simp add: t_def FullRigidBodySystem_from_vector_def COUNT_PER_BODY_def)
  note th = zero_constructors_reset_quaternions
    [where body_size = "- 1" and s = s and n = 2 and i = 1
       and v = "[1, 2, 3, 0, 0, 0, 2, 0, 0, 0, 0, 0, 0]" and t = t]
  have "get_orientation s 1 = Inr [0, 0, 0, 1]"
    using th d i by (simp add: identity_coeffs)
  moreover have "state_vector t = [1, 2, 3, 0, 0, 0, 2, 0, 0, 0, 0, 0, 0]"
    using th f by simp
  ultimately show ?thesis
    using d i f unfolding s_def t_def by simp
qed

text \<open>
  The claim as stated fails for the constructor with an initial value: a sequence of 13
  values whose orientation block is \<open>(0, 0, 0, 2)\<close> gives a state whose quaternion has
  norm 2 and is not the identity.
\<close>

theorem from_vector_keeps_quaternion_counterexample:
  "FullRigidBodySystem_from_vector (- 1) [1, 2, 3, 0, 0, 0, 2, 0, 0, 0, 0, 0, 0 :: real]
      = Inr (Base [1, 2, 3, 0, 0, 0, 2, 0, 0, 0, 0, 0, 0] 1)
   \<and> body_index (Base [1, 2, 3, 0, 0, 0, 2, 0, 0, 0, 0, 0, 0 :: real] 1) 0
   \<and> get_quaternion (Base [1, 2, 3, 0, 0, 0, 2, 0, 0, 0, 0, 0, 0 :: real] 1) 0
      = Inr \<lparr>qx = 0, qy = 0, qz = 0, qw = 2\<rparr>
   \<and> \<lparr>qx = 0, qy = 0, qz = 0, qw = 2 :: real\<rparr> \<noteq> Quaternion_Identity
   \<and> quaternion_norm \<lparr>qx = 0, qy = 0, qz = 0, qw = 2\<rparr> = 2"
proof (intro conjI)
  show "FullRigidBodySystem_from_vector (- 1) [1, 2, 3, 0, 0, 0, 2, 0, 0, 0, 0, 0, 0 :: real]
      = Inr (Base [1, 2, 3, 0, 0, 0, 2, 0, 0, 0, 0, 0, 0] 1)"
    by (simp add: FullRigidBodySystem_from_vector_def COUNT_PER_BODY_def)
  show "body_index (Base [1, 2, 3, 0, 0, 0, 2, 0, 0, 0, 0, 0, 0 :: real] 1) 0"
    by (simp add: body_index_def countBodies_def Base_def)
  show "get_quaternion (Base [1, 2, 3, 0, 0, 0, 2, 0, 0, 0, 0, 0, 0 :: real] 1) 0
      = Inr \<lparr>qx = 0, qy = 0, qz = 0, qw = 2\<rparr>"
    by (simp add: get_quaternion_def get_orientation_def middleRows_def in_rows_def body_offset_def
        Base_def COUNT_PER_BODY_def ORIENTATION_COUNT_def ORIENTATION_INDEX_def
        Quaternion_of_vector_def)
  show "\<lparr>qx = 0, qy = 0, qz = 0, qw = 2 :: real\<rparr> \<noteq> Quaternion_Identity"
    by (simp add: Quaternion_Identity_def Quaternion_wxyz_def)
  show "quaternion_norm \<lparr>qx = 0, qy = 0, qz = 0, qw = 2\<rparr> = 2"
    by (simp add: quaternion_norm_def squaredNorm_def)
qed

text \<open>
  Claim C2, as the code has it. The constructor with an initial value never fails with
  \<open>InvalidArgument\<close>, whatever the length of the sequence: with a dynamic size it always
  succeeds. The body count it infers is the integer quotient of the length by 13 (as an
  \<open>unsigned\<close>), which is the length divided by 13 when the length is a multiple of 13.
\<close>

theorem from_vector_infers_quotient:
  "FullRigidBodySystem_from_vector body_size v \<noteq> Inl InvalidArgument
   \<and> FullRigidBodySystem_from_vector (- 1) v = Inr (Base v (of_nat (length v div COUNT_PER_BODY)))
   \<and> (FullRigidBodySystem_from_vector body_size v = Inr s
      \<longrightarrow> state_vector s = v
        \<and> countBodies s = of_nat (length v div COUNT_PER_BODY)
        \<and> (length v < 2 ^ 32 \<longrightarrow> unat (countBodies s) = length v div COUNT_PER_BODY)
        \<and> (COUNT_PER_BODY dvd length v \<and> length v < 2 ^ 32
            \<longrightarrow> unat (countBodies s) * COUNT_PER_BODY = length v))"
proof (intro conjI impI)
  show "FullRigidBodySystem_from_vector body_size v \<noteq> Inl InvalidArgument"
    by (simp add: FullRigidBodySystem_from_vector_def)
  show "FullRigidBodySystem_from_vector (- 1) v = Inr (Base v (of_nat (length v div COUNT_PER_BODY)))"
    by (simp add: from_vector_dynamic COUNT_PER_BODY_def)
next
  assume a: "FullRigidBodySystem_from_vector body_size v = Inr s"
  note e = from_vector_result(1) [OF a]
  show "state_vector s = v" by (simp add: e Base_def)
  show c: "countBodies s = of_nat (length v div COUNT_PER_BODY)"
    by (simp add: e Base_def countBodies_def COUNT_PER_BODY_def)
  show u: "unat (countBodies s) = length v div COUNT_PER_BODY" if "length v < 2 ^ 32"
  proof -
    have "length v div 13 \<le> length v" by simp
    from this that have "length v div 13 < 2 ^ 32" by (rule le_less_trans)
    then show ?thesis by (simp add: c COUNT_PER_BODY_def unat_of_nat)
  qed
  show "unat (countBodies s) * COUNT_PER_BODY = length v"
    if "COUNT_PER_BODY dvd length v \<and> length v < 2 ^ 32"
    using that u by (simp add: COUNT_PER_BODY_def)
qed

text \<open>A sequence of 26 values gives two bodies.\<close>

theorem from_vector_infers_quotient_witness:
  "FullRigidBodySystem_from_vector (- 1) (state_vector two_bodies) = Inr two_bodies
   \<and> length (state_vector two_bodies) < 2 ^ 32
   \<and> COUNT_PER_BODY dvd length (state_vector two_bodies)
   \<and> unat (countBodies two_bodies) = 2
   \<and> unat (countBodies two_bodies) * COUNT_PER_BODY = 26"
proof -
  have a: "FullRigidBodySystem_from_vector (- 1) (state_vector two_bodies) = Inr two_bodies"
    by (simp add: FullRigidBodySystem_from_vector_def two_bodies_def Base_def COUNT_PER_BODY_def)
  have l: "length (state_vector two_bodies) = 26"
    by (simp add: two_bodies_def Base_def)
  have d: "COUNT_PER_BODY dvd length (state_vector two_bodies)"
    by (simp add: l COUNT_PER_BODY_def)
  show ?thesis
    using from_vector_infers_quotient [of "- 1" "state_vector two_bodies" two_bodies] a d
    by (simp add: l COUNT_PER_BODY_def)
qed

text \<open>
  The claim as stated fails on a sequence of 14 values: 14 is not a multiple of 13, and
  the construction succeeds, with one body.
\<close>

theorem from_vector_accepts_14_counterexample:
  "\<not> COUNT_PER_BODY dvd length (replicate 14 (0 :: real))
   \<and> FullRigidBodySystem_from_vector (- 1) (replicate 14 (0 :: real)) \<noteq> Inl InvalidArgument
   \<and> FullRigidBodySystem_from_vector (- 1) (replicate 14 (0 :: real)) = Inr (Base (replicate 14 0) 1)"
  by (simp add: FullRigidBodySystem_from_vector_def COUNT_PER_BODY_def)

text \<open>
  Claim C5. After every valid construction (the two constructors from a zero vector,
  and the constructor with an initial value on a sequence whose length is a multiple
  of 13), the body count times 13 is the state size that \<open>countState\<close> reports, in the
  \<open>unsigned\<close> arithmetic of the two queries; below \<open>2 ^ 32\<close> components, as after the
  first two constructors, the queries report the true counts, and the body count times 13
  is the number of components.
\<close>

theorem body_count_times_13_is_state_size:
  fixes s :: "('a::{zero,one}) RigidBodySystem"
  assumes "FullRigidBodySystem_fixed body_size = Inr s
     \<or> FullRigidBodySystem_dynamic body_size n = Inr s
     \<or> (FullRigidBodySystem_from_vector body_size v = Inr s \<and> COUNT_PER_BODY dvd length v)"
  shows "countBodies s * of_nat COUNT_PER_BODY = countState s
     \<and> (length (state_vector s) < 2 ^ 32
        \<longrightarrow> unat (countBodies s) * COUNT_PER_BODY = length (state_vector s)
          \<and> unat (countState s) = length (state_vector s))
     \<and> (FullRigidBodySystem_fixed body_size = Inr s \<or> FullRigidBodySystem_dynamic body_size n = Inr s
        \<longrightarrow> length (state_vector s) < 2 ^ 32)"
proof -
  have l: "\<exists>q. length (state_vector s) = 13 * q \<and> countBodies s = of_nat q
      \<and> (length (state_vector s) < 2 ^ 32 \<longrightarrow> unat (countBodies s) = q)"
  proof (cases "FullRigidBodySystem_fixed body_size = Inr s \<or> FullRigidBodySystem_dynamic body_size n = Inr s")
    case True
    from zero_constructed(1) [OF True] show ?thesis
      by (intro exI [of _ "unat (countBodies s)"]) simp
  next
    case False
    with assms have f: "FullRigidBodySystem_from_vector body_size v = Inr s"
      and d: "COUNT_PER_BODY dvd length v" by simp_all
    from d obtain q where q: "length v = 13 * q"
      by (auto simp add: COUNT_PER_BODY_def)
    note e = from_vector_result(1) [OF f]
    have "unat (of_nat q :: 32 word) = q" if "13 * q < 2 ^ 32"
    proof -
      have "q \<le> 13 * q" by simp
      from this that have "q < 2 ^ 32" by (rule le_less_trans)
      then show ?thesis by (simp add: unat_of_nat)
    qed
    then show ?thesis
      by (intro exI [of _ q]) (simp add: e q Base_def countBodies_def)
  qed
  then obtain q where q: "length (state_vector s) = 13 * q" "countBodies s = of_nat q"
    "length (state_vector s) < 2 ^ 32 \<longrightarrow> unat (countBodies s) = q"
    by (elim exE conjE) (rule that)
  have "countBodies s * of_nat COUNT_PER_BODY = countState s"
    by (simp add: q countState_def COUNT_PER_BODY_def mult.commute)
  moreover have "unat (countBodies s) * COUNT_PER_BODY = length (state_vector s)
      \<and> unat (countState s) = length (state_vector s)" if "length (state_vector s) < 2 ^ 32"
  proof
    show "unat (countBodies s) * COUNT_PER_BODY = length (state_vector s)"
      using that q(3) by (simp add: q(1) COUNT_PER_BODY_def)
    have "unat (of_nat (length (state_vector s)) :: 32 word) = length (state_vector s)"
      using that by (simp add: unat_of_nat)
    then show "unat (countState s) = length (state_vector s)"
      by (simp only: countState_def)
  qed
  moreover have "length (state_vector s) < 2 ^ 32"
    if "FullRigidBodySystem_fixed body_size = Inr s \<or> FullRigidBodySystem_dynamic body_size n = Inr s"
    by (rule zero_constructed(2) [OF that])
  ultimately show ?thesis by simp
qed

text \<open>Two bodies of a dynamic size: 26 components.\<close>

theorem body_count_times_13_is_state_size_witness:
  "FullRigidBodySystem_dynamic (- 1) 2 =
     Inr (Base [0, 0, 0, 0, 0, 0, 1, 0, 0, 0, 0, 0, 0, 0, 0, 0, 0, 0, 0, 1, 0, 0, 0, 0, 0, 0 :: int] 2)
   \<and> countBodies (Base [0, 0, 0, 0, 0, 0, 1, 0, 0, 0, 0, 0, 0, 0, 0, 0, 0, 0, 0, 1, 0, 0, 0, 0, 0, 0 :: int] 2)
        * of_nat COUNT_PER_BODY = 26
   \<and> countState (Base [0, 0, 0, 0, 0, 0, 1, 0, 0, 0, 0, 0, 0, 0, 0, 0, 0, 0, 0, 1, 0, 0, 0, 0, 0, 0 :: int] 2)
        = 26"
proof -
  define s :: "int RigidBodySystem"
    where "s = Base [0, 0, 0, 0, 0, 0, 1, 0, 0, 0, 0, 0, 0, 0, 0, 0, 0, 0, 0, 1, 0, 0, 0, 0, 0, 0] 2"
  have d: "FullRigidBodySystem_dynamic (- 1) 2 = Inr s"
    unfolding s_def by code_simp
  have c: "countState s = 26"
    by (simp add: s_def countState_def Base_def)
  have "countBodies s * of_nat COUNT_PER_BODY = countState s"
    using body_count_times_13_is_state_size [where body_size = "- 1" and n = 2 and s = s] d by simp
  then show ?thesis
    using d c unfolding s_def by simp
qed

text \<open>
  Claim C10. The orientation block is read in the coefficient order x, y, z, w:
  \<open>get_quaternion\<close> makes the quaternion whose x, y, z and w are the flat components
  \<open>13i+3\<close>, \<open>13i+4\<close>, \<open>13i+5\<close> and \<open>13i+6\<close>. The identity written at construction is
  therefore stored as \<open>(0, 0, 0, 1)\<close>, the 1 last, and not as \<open>(1, 0, 0, 0)\<close>.
\<close>

theorem quaternion_is_scalar_last:
  fixes s c :: "('a::zero_neq_one) RigidBodySystem"
  shows "(body_index s i \<and> holds_bodies s
        \<longrightarrow> get_quaternion s i = Inr \<lparr>qx = state_vector s ! (13 * unat i + 3),
              qy = state_vector s ! (13 * unat i + 4), qz = state_vector s ! (13 * unat i + 5),
              qw = state_vector s ! (13 * unat i + 6)\<rparr>)
    \<and> coeffs (Quaternion_Identity :: 'a Quaternion) = [0, 0, 0, 1]
    \<and> coeffs (Quaternion_Identity :: 'a Quaternion) \<noteq> [1, 0, 0, 0]
    \<and> ((FullRigidBodySystem_fixed body_size = Inr c \<or> FullRigidBodySystem_dynamic body_size n = Inr c)
          \<and> body_index c k
        \<longrightarrow> get_orientation c k = Inr [0, 0, 0, 1]
          \<and> state_vector c ! (13 * unat k + 3) = 0 \<and> state_vector c ! (13 * unat k + 4) = 0
          \<and> state_vector c ! (13 * unat k + 5) = 0 \<and> state_vector c ! (13 * unat k + 6) = 1
          \<and> get_quaternion c k = Inr Quaternion_Identity)"
proof (intro conjI impI)
  assume "body_index s i \<and> holds_bodies s"
  then have a: "body_index s i" "holds_bodies s" by simp_all
  show "get_quaternion s i = Inr \<lparr>qx = state_vector s ! (13 * unat i + 3),
              qy = state_vector s ! (13 * unat i + 4), qz = state_vector s ! (13 * unat i + 5),
              qw = state_vector s ! (13 * unat i + 6)\<rparr>"
    by (simp add: get_quaternion_def get_blocks_of_body(2) [OF a] Quaternion_of_vector_def)
next
  show "coeffs (Quaternion_Identity :: 'a Quaternion) = [0, 0, 0, 1]"
    by (rule identity_coeffs)
  show "coeffs (Quaternion_Identity :: 'a Quaternion) \<noteq> [1, 0, 0, 0]"
    by (simp add: identity_coeffs)
next
  assume "(FullRigidBodySystem_fixed body_size = Inr c \<or> FullRigidBodySystem_dynamic body_size n = Inr c)
          \<and> body_index c k"
  then have c: "FullRigidBodySystem_fixed body_size = Inr c \<or> FullRigidBodySystem_dynamic body_size n = Inr c"
    and k: "body_index c k" by simp_all
  note b = constructed_blocks [OF c k]
  show o: "get_orientation c k = Inr [0, 0, 0, 1]" by (rule b(3))
  show "get_quaternion c k = Inr Quaternion_Identity" by (rule b(6))
  from o get_blocks_of_body(2) [OF k b(1)]
  show "state_vector c ! (13 * unat k + 3) = 0" "state_vector c ! (13 * unat k + 4) = 0"
    "state_vector c ! (13 * unat k + 5) = 0" "state_vector c ! (13 * unat k + 6) = 1"
    by simp_all
qed

text \<open>
  The second of the two example bodies has the orientation block \<open>(61, 62, 63, 64)\<close>: 64
  is its w. One body of a static size has the 1 at the flat index 6.
\<close>

theorem quaternion_is_scalar_last_witness:
  "body_index two_bodies 1 \<and> holds_bodies two_bodies
   \<and> get_quaternion two_bodies 1 = Inr \<lparr>qx = 61, qy = 62, qz = 63, qw = 64\<rparr>
   \<and> FullRigidBodySystem_fixed 1 = Inr (Base [0, 0, 0, 0, 0, 0, 1, 0, 0, 0, 0, 0, 0 :: int] 1)
   \<and> body_index (Base [0, 0, 0, 0, 0, 0, 1, 0, 0, 0, 0, 0, 0 :: int] 1) 0
   \<and> get_orientation (Base [0, 0, 0, 0, 0, 0, 1, 0, 0, 0, 0, 0, 0 :: int] 1) 0 = Inr [0, 0, 0, 1]"
proof -
  define c :: "int RigidBodySystem" where "c = Base [0, 0, 0, 0, 0, 0, 1, 0, 0, 0, 0, 0, 0] 1"
  have h: "body_index two_bodies 1" "holds_bodies two_bodies"
    by (simp_all add: body_index_def holds_bodies_def two_bodies_def Base_def countBodies_def
        COUNT_PER_BODY_def)
  have f: "FullRigidBodySystem_fixed 1 = Inr c"
    unfolding c_def by code_simp
  have k: "body_index c 0"
    by (simp add: c_def body_index_def countBodies_def Base_def)
  note th = quaternion_is_scalar_last [where s = two_bodies and i = 1 and body_size = 1 and c = c and k = 0]
  have "get_quaternion two_bodies 1 = Inr \<lparr>qx = 61, qy = 62, qz = 63, qw = 64\<rparr>"
    using th h by (simp add: two_bodies_def Base_def)
  moreover have "get_orientation c 0 = Inr [0, 0, 0, 1]"
    using th f k by simp
  ultimately show ?thesis
    using h f k unfolding c_def by simp
qed

lemma nth_assign_coeffs_outside:
  "j < k \<or> k + length xs \<le> j \<Longrightarrow> assign_coeffs k xs v ! j = v ! j"
  by (induction xs arbitrary: k v) auto

lemma block_write_frame:
  assumes "block_set s b k x = Inr s' \<or> block_assign s b vals = Inr s'"
  shows "length (state_vector s') = length (state_vector s)"
    and "countBodies s' = countBodies s"
    and "j \<notin> set (block_indices b) \<Longrightarrow> state_vector s' ! j = state_vector s ! j"
proof -
  from assms consider
      (one) "k < block_size b" "s' = s\<lparr>state_vector := (state_vector s)[block_start b + k := x]\<rparr>"
    | (all) "length vals = block_size b"
        "s' = s\<lparr>state_vector := assign_coeffs (block_start b) vals (state_vector s)\<rparr>"
    by (auto simp add: block_set_def block_assign_def split: if_splits)
  note w = this
  show "length (state_vector s') = length (state_vector s)"
    by (cases rule: w) simp_all
  show "countBodies s' = countBodies s"
    by (cases rule: w) (simp_all add: countBodies_def)
  show "state_vector s' ! j = state_vector s ! j" if "j \<notin> set (block_indices b)"
  proof (cases rule: w)
    case one
    with that have "j \<noteq> block_start b + k" by (auto simp add: block_indices_def)
    with one show ?thesis by simp
  next
    case all
    with that have "j < block_start b \<or> block_start b + length vals \<le> j"
      by (auto simp add: block_indices_def)
    with all show ?thesis by (simp add: nth_assign_coeffs_outside)
  qed
qed

text \<open>
  Claim C9. A write through a view that an accessor returned for the body \<open>i\<close> (one
  coefficient or the whole block) changes components of that view only: the view lies
  inside the 13 components of body \<open>i\<close>, at the accessor's offset, and every other
  component, the length and the body count stay as they were. \<open>reset_quaternions\<close>
  changes only components at the offsets 3 to 6 of a body's block, so after the two
  constructors that start from a zero vector the positions and velocities are zero.
\<close>

theorem writes_stay_in_their_block:
  fixes s s' r r' c :: "('a::{zero,one}) RigidBodySystem"
  shows "(body_index s i \<and> holds_bodies s
          \<and> Inr b \<in> {position s i, orientation s i, linear_velocity s i, angular_velocity s i,
                      single_body s i}
          \<and> (block_set s b k x = Inr s' \<or> block_assign s b vals = Inr s')
        \<longrightarrow> set (block_indices b) \<subseteq> {13 * unat i ..< 13 * unat i + 13}
          \<and> (position s i = Inr b \<longrightarrow> set (block_indices b) = {13 * unat i ..< 13 * unat i + 3})
          \<and> (orientation s i = Inr b \<longrightarrow> set (block_indices b) = {13 * unat i + 3 ..< 13 * unat i + 7})
          \<and> (linear_velocity s i = Inr b
              \<longrightarrow> set (block_indices b) = {13 * unat i + 7 ..< 13 * unat i + 10})
          \<and> (angular_velocity s i = Inr b
              \<longrightarrow> set (block_indices b) = {13 * unat i + 10 ..< 13 * unat i + 13})
          \<and> length (state_vector s') = length (state_vector s)
          \<and> countBodies s' = countBodies s
          \<and> (\<forall>j. j \<notin> set (block_indices b) \<longrightarrow> state_vector s' ! j = state_vector s ! j))
    \<and> (reset_quaternions r = Inr r'
        \<longrightarrow> length (state_vector r') = length (state_vector r)
          \<and> countBodies r' = countBodies r
          \<and> (\<forall>j < length (state_vector r).
                \<not> (j div 13 < unat (countBodies r) \<and> 3 \<le> j mod 13 \<and> j mod 13 < 7)
                \<longrightarrow> state_vector r' ! j = state_vector r ! j))
    \<and> ((FullRigidBodySystem_fixed body_size = Inr c \<or> FullRigidBodySystem_dynamic body_size n = Inr c)
          \<and> body_index c m
        \<longrightarrow> get_position c m = Inr [0, 0, 0]
          \<and> get_linear_velocity c m = Inr [0, 0, 0]
          \<and> get_angular_velocity c m = Inr [0, 0, 0])"
proof (intro conjI)
  show "body_index s i \<and> holds_bodies s
          \<and> Inr b \<in> {position s i, orientation s i, linear_velocity s i, angular_velocity s i,
                      single_body s i}
          \<and> (block_set s b k x = Inr s' \<or> block_assign s b vals = Inr s')
        \<longrightarrow> set (block_indices b) \<subseteq> {13 * unat i ..< 13 * unat i + 13}
          \<and> (position s i = Inr b \<longrightarrow> set (block_indices b) = {13 * unat i ..< 13 * unat i + 3})
          \<and> (orientation s i = Inr b \<longrightarrow> set (block_indices b) = {13 * unat i + 3 ..< 13 * unat i + 7})
          \<and> (linear_velocity s i = Inr b
              \<longrightarrow> set (block_indices b) = {13 * unat i + 7 ..< 13 * unat i + 10})
          \<and> (angular_velocity s i = Inr b
              \<longrightarrow> set (block_indices b) = {13 * unat i + 10 ..< 13 * unat i + 13})
          \<and> length (state_vector s') = length (state_vector s)
          \<and> countBodies s' = countBodies s
          \<and> (\<forall>j. j \<notin> set (block_indices b) \<longrightarrow> state_vector s' ! j = state_vector s ! j)"
  proof
    assume a: "body_index s i \<and> holds_bodies s
          \<and> Inr b \<in> {position s i, orientation s i, linear_velocity s i, angular_velocity s i,
                      single_body s i}
          \<and> (block_set s b k x = Inr s' \<or> block_assign s b vals = Inr s')"
    then have h: "body_index s i" "holds_bodies s"
      and w: "block_set s b k x = Inr s' \<or> block_assign s b vals = Inr s'" by simp_all
    note v = views_of_body [OF h]
    note f = block_write_frame [OF w]
    have p: "set (block_indices b) = {13 * unat i ..< 13 * unat i + 3}" if "position s i = Inr b"
      using that v(1) by (auto simp add: block_indices_def)
    have q: "set (block_indices b) = {13 * unat i + 3 ..< 13 * unat i + 7}" if "orientation s i = Inr b"
      using that v(2) by (auto simp add: block_indices_def)
    have l: "set (block_indices b) = {13 * unat i + 7 ..< 13 * unat i + 10}"
      if "linear_velocity s i = Inr b"
      using that v(3) by (auto simp add: block_indices_def)
    have g: "set (block_indices b) = {13 * unat i + 10 ..< 13 * unat i + 13}"
      if "angular_velocity s i = Inr b"
      using that v(4) by (auto simp add: block_indices_def)
    have e: "set (block_indices b) = {13 * unat i ..< 13 * unat i + 13}" if "single_body s i = Inr b"
      using that v(5) by (auto simp add: block_indices_def)
    from a have "position s i = Inr b \<or> orientation s i = Inr b \<or> linear_velocity s i = Inr b
        \<or> angular_velocity s i = Inr b \<or> single_body s i = Inr b" by auto
    then have sub: "set (block_indices b) \<subseteq> {13 * unat i ..< 13 * unat i + 13}"
      using p q l g e by (elim disjE) auto
    show "set (block_indices b) \<subseteq> {13 * unat i ..< 13 * unat i + 13}
          \<and> (position s i = Inr b \<longrightarrow> set (block_indices b) = {13 * unat i ..< 13 * unat i + 3})
          \<and> (orientation s i = Inr b \<longrightarrow> set (block_indices b) = {13 * unat i + 3 ..< 13 * unat i + 7})
          \<and> (linear_velocity s i = Inr b
              \<longrightarrow> set (block_indices b) = {13 * unat i + 7 ..< 13 * unat i + 10})
          \<and> (angular_velocity s i = Inr b
              \<longrightarrow> set (block_indices b) = {13 * unat i + 10 ..< 13 * unat i + 13})
          \<and> length (state_vector s') = length (state_vector s)
          \<and> countBodies s' = countBodies s
          \<and> (\<forall>j. j \<notin> set (block_indices b) \<longrightarrow> state_vector s' ! j = state_vector s ! j)"
      using sub p q l g f by (intro conjI impI allI)
  qed
next
  show "reset_quaternions r = Inr r'
        \<longrightarrow> length (state_vector r') = length (state_vector r)
          \<and> countBodies r' = countBodies r
          \<and> (\<forall>j < length (state_vector r).
                \<not> (j div 13 < unat (countBodies r) \<and> 3 \<le> j mod 13 \<and> j mod 13 < 7)
                \<longrightarrow> state_vector r' ! j = state_vector r ! j)"
  proof
    assume "reset_quaternions r = Inr r'"
    note q = reset_quaternions_result [OF this]
    show "length (state_vector r') = length (state_vector r)
          \<and> countBodies r' = countBodies r
          \<and> (\<forall>j < length (state_vector r).
                \<not> (j div 13 < unat (countBodies r) \<and> 3 \<le> j mod 13 \<and> j mod 13 < 7)
                \<longrightarrow> state_vector r' ! j = state_vector r ! j)"
      using q(1,2) q(3) by (simp add: countBodies_def)
  qed
next
  show "(FullRigidBodySystem_fixed body_size = Inr c \<or> FullRigidBodySystem_dynamic body_size n = Inr c)
          \<and> body_index c m
        \<longrightarrow> get_position c m = Inr [0, 0, 0]
          \<and> get_linear_velocity c m = Inr [0, 0, 0]
          \<and> get_angular_velocity c m = Inr [0, 0, 0]"
  proof
    assume "(FullRigidBodySystem_fixed body_size = Inr c \<or> FullRigidBodySystem_dynamic body_size n = Inr c)
          \<and> body_index c m"
    then have c: "FullRigidBodySystem_fixed body_size = Inr c \<or> FullRigidBodySystem_dynamic body_size n = Inr c"
      and m: "body_index c m" by simp_all
    from constructed_blocks(2,4,5) [OF c m]
    show "get_position c m = Inr [0, 0, 0]
          \<and> get_linear_velocity c m = Inr [0, 0, 0]
          \<and> get_angular_velocity c m = Inr [0, 0, 0]" by simp
  qed
qed

text \<open>
  Writing 99 to the last coefficient of the second body's orientation view changes the
  flat component 19 only. Resetting the quaternions of the example state keeps its
  positions and velocities. One body of a static size has a zero position.
\<close>

theorem writes_stay_in_their_block_witness:
  "body_index two_bodies 1 \<and> holds_bodies two_bodies
   \<and> orientation two_bodies 1 = Inr \<lparr>block_start = 16, block_size = 4\<rparr>
   \<and> block_set two_bodies \<lparr>block_start = 16, block_size = 4\<rparr> 3 99
      = Inr (Base [11, 12, 13, 21, 22, 23, 24, 31, 32, 33, 41, 42, 43,
                   51, 52, 53, 61, 62, 63, 99, 71, 72, 73, 81, 82, 83] 2)
   \<and> set (block_indices \<lparr>block_start = 16, block_size = 4\<rparr>) = {16 ..< 20}
   \<and> reset_quaternions two_bodies
      = Inr (Base [11, 12, 13, 0, 0, 0, 1, 31, 32, 33, 41, 42, 43,
                   51, 52, 53, 0, 0, 0, 1, 71, 72, 73, 81, 82, 83] 2)
   \<and> FullRigidBodySystem_fixed 1 = Inr (Base [0, 0, 0, 0, 0, 0, 1, 0, 0, 0, 0, 0, 0 :: int] 1)
   \<and> body_index (Base [0, 0, 0, 0, 0, 0, 1, 0, 0, 0, 0, 0, 0 :: int] 1) 0
   \<and> get_position (Base [0, 0, 0, 0, 0, 0, 1, 0, 0, 0, 0, 0, 0 :: int] 1) 0 = Inr [0, 0, 0]
   \<and> get_linear_velocity (Base [0, 0, 0, 0, 0, 0, 1, 0, 0, 0, 0, 0, 0 :: int] 1) 0 = Inr [0, 0, 0]"
proof -
  define b where "b = \<lparr>block_start = 16, block_size = 4\<rparr>"
  define s' :: "int RigidBodySystem"
    where "s' = Base [11, 12, 13, 21, 22, 23, 24, 31, 32, 33, 41, 42, 43,
                      51, 52, 53, 61, 62, 63, 99, 71, 72, 73, 81, 82, 83] 2"
  define r' :: "int RigidBodySystem"
    where "r' = Base [11, 12, 13, 0, 0, 0, 1, 31, 32, 33, 41, 42, 43,
                      51, 52, 53, 0, 0, 0, 1, 71, 72, 73, 81, 82, 83] 2"
  define c :: "int RigidBodySystem" where "c = Base [0, 0, 0, 0, 0, 0, 1, 0, 0, 0, 0, 0, 0] 1"
  have h: "body_index two_bodies 1" "holds_bodies two_bodies"
    by (simp_all add: body_index_def holds_bodies_def two_bodies_def Base_def countBodies_def
        COUNT_PER_BODY_def)
  have o: "orientation two_bodies 1 = Inr b"
    unfolding b_def
    by (simp add: orientation_def make_block_def in_rows_def body_offset_def two_bodies_def Base_def
        COUNT_PER_BODY_def ORIENTATION_COUNT_def ORIENTATION_INDEX_def)
  have w: "block_set two_bodies b 3 99 = Inr s'"
    unfolding b_def s'_def by (simp add: block_set_def two_bodies_def Base_def)
  have r: "reset_quaternions two_bodies = Inr r'"
    unfolding r'_def two_bodies_def by code_simp
  have f: "FullRigidBodySystem_fixed 1 = Inr c"
    unfolding c_def by code_simp
  have m: "body_index c 0"
    by (simp add: c_def body_index_def countBodies_def Base_def)
  note th = writes_stay_in_their_block [where s = two_bodies and i = 1 and b = b and k = 3
      and x = 99 and s' = s' and r = two_bodies and r' = r' and body_size = 1 and c = c and m = 0]
  have "set (block_indices b) = {16 ..< 20}"
    using th h o w by simp
  moreover have "get_position c 0 = Inr [0, 0, 0]" "get_linear_velocity c 0 = Inr [0, 0, 0]"
    using th f m by simp_all
  ultimately show ?thesis
    using h o w r f m unfolding b_def s'_def r'_def c_def by simp
qed

section \<open>The renderer's loops\<close>

lemma extract_poses_loop_result:
  assumes "length translations = length rotations" "i \<le> length rotations"
  shows "extract_poses_loop state i rotations translations =
     (take i rotations @ map (component_rotation_matrix state) [i ..< length rotations],
      take i translations @ map (component_position state) [i ..< length rotations])"
  using assms
proof (induction state i rotations "translations" rule: extract_poses_loop.induct)
  case (1 state i rotations trans)
  show ?case
  proof (cases "i < length rotations")
    case False
    with "1.prems" have "i = length rotations" by simp
    then show ?thesis
      using "1.prems" by (subst extract_poses_loop.simps) simp
  next
    case True
    have u: "[i ..< length rotations] = i # [i + 1 ..< length rotations]"
      using True by (simp add: upt_conv_Cons)
    have t: "i < length trans" using True "1.prems" by simp
    have "extract_poses_loop state i rotations trans =
        extract_poses_loop state (i + 1) (rotations[i := component_rotation_matrix state i])
          (trans[i := component_position state i])"
      using True by (subst extract_poses_loop.simps) simp
    also have "\<dots> =
       (take (i + 1) (rotations[i := component_rotation_matrix state i])
          @ map (component_rotation_matrix state) [i + 1 ..< length rotations],
        take (i + 1) (trans[i := component_position state i])
          @ map (component_position state) [i + 1 ..< length rotations])"
      using "1.IH" [OF True] True "1.prems" by simp
    also have "\<dots> =
       (take i rotations @ map (component_rotation_matrix state) [i ..< length rotations],
        take i trans @ map (component_position state) [i ..< length rotations])"
      using True t by (simp add: u take_Suc_conv_app_nth)
    finally show ?thesis .
  qed
qed

lemma extract_poses_maps:
  "extract_poses state =
     (map (component_rotation_matrix state) [0 ..< count_parts state],
      map (component_position state) [0 ..< count_parts state])"
  using extract_poses_loop_result [of "replicate (count_parts state) zero_Vector"
      "replicate (count_parts state) zero_Matrix" 0 state]
  by (simp add: extract_poses_def)

lemma convert_loop_double_result:
  assumes "length depth_image = length depth_vector" "i \<le> length depth_vector"
  shows "convert_loop_double bad_value depth_vector i depth_image =
     take i depth_image
       @ map (\<lambda>value. if isfinite value then value else bad_value) (drop i depth_vector)"
  using assms
proof (induction bad_value depth_vector i depth_image rule: convert_loop_double.induct)
  case (1 bad_value depth_vector i depth_image)
  show ?case
  proof (cases "i < length depth_vector")
    case False
    with "1.prems" show ?thesis
      by (subst convert_loop_double.simps) simp
  next
    case True
    have d: "drop i depth_vector = depth_vector ! i # drop (i + 1) depth_vector"
      using True by (simp add: Cons_nth_drop_Suc)
    have "convert_loop_double bad_value depth_vector i depth_image =
        convert_loop_double bad_value depth_vector (i + 1)
          (depth_image[i := (if isfinite (depth_vector ! i) then double_of (depth_vector ! i)
                             else bad_value)])"
      using True by (subst convert_loop_double.simps) (simp add: Let_def)
    also have "\<dots> =
        take (i + 1) (depth_image[i := (if isfinite (depth_vector ! i) then double_of (depth_vector ! i)
                             else bad_value)])
          @ map (\<lambda>value. if isfinite value then value else bad_value) (drop (i + 1) depth_vector)"
      using "1.IH" [OF True refl] True "1.prems" by simp
    also have "\<dots> = take i depth_image
       @ map (\<lambda>value. if isfinite value then value else bad_value) (drop i depth_vector)"
      using True "1.prems" by (simp add: d take_Suc_conv_app_nth double_of_def)
    finally show ?thesis .
  qed
qed

lemma convert_loop_float_result:
  assumes "length depth_image = length depth_vector" "i \<le> length depth_vector"
  shows "convert_loop_float bad_value depth_vector i depth_image =
     take i depth_image
       @ map (\<lambda>value. if isfinite value then value else PosInf) (drop i depth_vector)"
  using assms
proof (induction bad_value depth_vector i depth_image rule: convert_loop_float.induct)
  case (1 bad_value depth_vector i depth_image)
  show ?case
  proof (cases "i < length depth_vector")
    case False
    with "1.prems" show ?thesis
      by (subst convert_loop_float.simps) simp
  next
    case True
    have d: "drop i depth_vector = depth_vector ! i # drop (i + 1) depth_vector"
      using True by (simp add: Cons_nth_drop_Suc)
    have "convert_loop_float bad_value depth_vector i depth_image =
        convert_loop_float bad_value depth_vector (i + 1)
          (depth_image[i := (if isfinite (depth_vector ! i) then float_of (depth_vector ! i)
                             else infinity)])"
      using True by (subst convert_loop_float.simps) (simp add: Let_def)
    also have "\<dots> =
        take (i + 1) (depth_image[i := (if isfinite (depth_vector ! i) then float_of (depth_vector ! i)
                             else infinity)])
          @ map (\<lambda>value. if isfinite value then value else PosInf) (drop (i + 1) depth_vector)"
      using "1.IH" [OF True refl] True "1.prems" by simp
    also have "\<dots> = take i depth_image
       @ map (\<lambda>value. if isfinite value then value else PosInf) (drop i depth_vector)"
      using True "1.prems" by (simp add: d take_Suc_conv_app_nth float_of_def infinity_def)
    finally show ?thesis .
  qed
qed

lemma keep_nearest_no_valid_hit:
  assumes "\<forall>(body, hit) \<in> set hits. \<not> valid_hit hit"
  shows "foldl keep_nearest acc hits = acc"
  using assms
proof (induction hits arbitrary: acc)
  case Nil
  then show ?case by simp
next
  case (Cons h hits)
  obtain index depth where a: "acc = (index, depth)" by (cases acc)
  obtain body hit where h: "h = (body, hit)" by (cases h)
  from Cons.prems h have "\<not> valid_hit hit" by simp
  then have "keep_nearest acc h = acc"
    by (cases hit) (simp_all add: a h)
  with Cons show ?case by simp
qed

lemma pixels_nth:
  assumes "0 \<le> row" "row < n_rows" "0 \<le> col" "col < n_cols"
  shows "nat row * nat n_cols + nat col < length (pixels n_rows n_cols)"
    and "pixels n_rows n_cols ! (nat row * nat n_cols + nat col) = (row, col)"
proof -
  have c: "nat col < nat n_cols" and r: "nat row < nat n_rows" using assms by simp_all
  have "nat row * nat n_cols + nat col < nat row * nat n_cols + nat n_cols" using c by simp
  also have "\<dots> = (nat row + 1) * nat n_cols" by simp
  also have "\<dots> \<le> nat n_rows * nat n_cols"
  proof (rule mult_le_mono1)
    show "nat row + 1 \<le> nat n_rows" using r by linarith
  qed
  finally have lt: "nat row * nat n_cols + nat col < nat n_rows * nat n_cols" .
  then show "nat row * nat n_cols + nat col < length (pixels n_rows n_cols)"
    by (simp add: pixels_def)
  show "pixels n_rows n_cols ! (nat row * nat n_cols + nat col) = (row, col)"
    using lt c assms by (simp add: pixels_def)
qed

lemma Render_depth_length:
  "length (Render_depth intersect r camera_matrix n_rows n_cols) = nat n_rows * nat n_cols"
  by (simp add: Render_depth_def Render_indices_depth_def pixels_def)

lemma Render_state_unfolded:
  "Render_state intersect r state =
     (case set_poses r (map (component_rotation_matrix state) [0 ..< count_parts state])
             (map (component_position state) [0 ..< count_parts state]) of
        Inl e \<Rightarrow> Inl e
      | Inr r' \<Rightarrow>
          Inr (r', Render_depth intersect r' (camera_matrix_m r') (n_rows_m r') (n_cols_m r')))"
  by (simp add: Render_state_def extract_poses_maps)

lemma Render_VectorXd_result:
  "Render_VectorXd intersect r state bad_value =
     (case Render_state intersect r state of
        Inl e \<Rightarrow> Inl e
      | Inr (r', depth_vector) \<Rightarrow>
          Inr (r', map (\<lambda>value. if isfinite value then value else bad_value) depth_vector))"
  by (simp add: Render_VectorXd_def convert_loop_double_result resize_def split: sum.splits prod.splits)

lemma Render_VectorXf_result:
  "Render_VectorXf intersect r state bad_value =
     (case Render_state intersect r state of
        Inl e \<Rightarrow> Inl e
      | Inr (r', depth_vector) \<Rightarrow>
          Inr (r', map (\<lambda>value. if isfinite value then value else PosInf) depth_vector))"
  by (simp add: Render_VectorXf_def convert_loop_float_result resize_def split: sum.splits prod.splits)

lemma one_triangle_moved:
  "set_poses one_triangle [identity_Matrix] [(0, 0, 2)] =
     Inr (one_triangle\<lparr>R_m := [identity_Matrix], t_m := [(0, 0, 2)]\<rparr>)"
  by (simp add: set_poses_def one_triangle_def)

lemma one_part_poses:
  "map (component_rotation_matrix one_part) [0 ..< count_parts one_part] = [identity_Matrix]"
  "map (component_position one_part) [0 ..< count_parts one_part] = [(0, 0, 2)]"
  by (simp_all add: one_part_def)

lemma one_pixel: "pixels 1 1 = [(0, 0)]"
  by (simp add: pixels_def)

lemma moved_hits:
  "body_hits intersect (one_triangle\<lparr>R_m := [identity_Matrix], t_m := [(0, 0, 2)]\<rparr>) K row col =
     [(0, intersect K row col identity_Matrix (0, 0, 2) [(0, 0, 1), (1, 0, 1), (0, 1, 1)] [0, 1, 2])]"
  by (simp add: body_hits_def posed_bodies_def one_triangle_def)

lemma Render_state_one_triangle:
  "Render_state intersect one_triangle one_part =
     Inr (one_triangle\<lparr>R_m := [identity_Matrix], t_m := [(0, 0, 2)]\<rparr>,
          [snd (keep_nearest no_hit
             (0, intersect identity_Matrix 0 0 identity_Matrix (0, 0, 2)
                   [(0, 0, 1), (1, 0, 1), (0, 1, 1)] [0, 1, 2]))])"
  by (simp add: Render_state_unfolded one_part_poses one_triangle_moved Render_depth_def
      Render_indices_depth_def render_pixel_def moved_hits)
     (simp add: one_triangle_def one_pixel)

section \<open>The claims about the renderer\<close>

text \<open>
  Claim C3, at the failing input. On the one sample \<open>+\<infinity>\<close> and the bad value 0, the
  loop of the \<open>VectorXd\<close> overload writes 0 and the loop of the \<open>VectorXf\<close> overload
  writes \<open>+\<infinity>\<close>. In a whole render: the triangle is behind the camera, so the one pixel
  has no hit and its sample is the positive infinity. With the bad value 0, the overload for
  \<open>Eigen::VectorXd\<close> writes 0; the overload for \<open>Eigen::VectorXf\<close> writes the positive
  infinity, whatever the bad value is. With the default bad value, the positive infinity,
  the two agree.
\<close>

theorem Render_VectorXf_ignores_bad_value:
  "convert_loop_double (Finite 0) [PosInf] 0 (resize 1) = [Finite 0]
   \<and> convert_loop_float (Finite 0) [PosInf] 0 (resize 1) = [PosInf]
   \<and> Render_VectorXd behind_camera one_triangle one_part (Finite 0) =
     Inr (one_triangle\<lparr>R_m := [identity_Matrix], t_m := [(0, 0, 2)]\<rparr>, [Finite 0])
   \<and> Render_VectorXf behind_camera one_triangle one_part (Finite 0) =
     Inr (one_triangle\<lparr>R_m := [identity_Matrix], t_m := [(0, 0, 2)]\<rparr>, [PosInf])
   \<and> Render_VectorXf behind_camera one_triangle one_part bad_value =
     Inr (one_triangle\<lparr>R_m := [identity_Matrix], t_m := [(0, 0, 2)]\<rparr>, [PosInf])
   \<and> Render_VectorXd behind_camera one_triangle one_part default_bad_value =
     Inr (one_triangle\<lparr>R_m := [identity_Matrix], t_m := [(0, 0, 2)]\<rparr>, [PosInf])"
  by (simp add: Render_VectorXd_result Render_VectorXf_result Render_state_one_triangle
      behind_camera_def no_hit_def default_bad_value_def infinity_def
      convert_loop_double_result convert_loop_float_result resize_def)

text \<open>
  Claim C6. For every state, \<open>Render(state, depth_vector)\<close> hands \<open>set_poses\<close> one
  rotation matrix and one translation per part, in the order of the parts, and renders
  the renderer that \<open>set_poses\<close> returns with its cached camera matrix and resolution.
  When the state has as many parts as the renderer has bodies, \<open>set_poses\<close> replaces the
  renderer's poses by exactly these arrays and nothing else of the renderer changes; the
  depth returned is the render with the new poses, one sample per pixel. The renderer
  that is returned, the one later renders read, holds these poses. With another number
  of parts \<open>set_poses\<close> fails, and so does the render.
\<close>

theorem Render_state_sets_poses_then_renders:
  "Render_state intersect r state =
      (case set_poses r (map (component_rotation_matrix state) [0 ..< count_parts state])
              (map (component_position state) [0 ..< count_parts state]) of
         Inl e \<Rightarrow> Inl e
       | Inr r' \<Rightarrow>
           Inr (r', Render_depth intersect r' (camera_matrix_m r') (n_rows_m r') (n_cols_m r')))
    \<and> (count_parts state = length (vertices_m r)
      \<longrightarrow> (\<exists>r' depth_vector. Render_state intersect r state = Inr (r', depth_vector)
        \<and> R_m r' = map (component_rotation_matrix state) [0 ..< count_parts state]
        \<and> t_m r' = map (component_position state) [0 ..< count_parts state]
        \<and> length (R_m r') = count_parts state \<and> length (t_m r') = count_parts state
        \<and> r' = r\<lparr>R_m := R_m r', t_m := t_m r'\<rparr>
        \<and> camera_matrix_m r' = camera_matrix_m r \<and> n_rows_m r' = n_rows_m r
        \<and> n_cols_m r' = n_cols_m r
        \<and> depth_vector = Render_depth intersect r' (camera_matrix_m r) (n_rows_m r) (n_cols_m r)
        \<and> length depth_vector = nat (n_rows_m r) * nat (n_cols_m r)))
    \<and> (count_parts state \<noteq> length (vertices_m r)
      \<longrightarrow> Render_state intersect r state = Inl InvalidArgument)"
proof (intro conjI impI)
  show "Render_state intersect r state =
      (case set_poses r (map (component_rotation_matrix state) [0 ..< count_parts state])
              (map (component_position state) [0 ..< count_parts state]) of
         Inl e \<Rightarrow> Inl e
       | Inr r' \<Rightarrow>
           Inr (r', Render_depth intersect r' (camera_matrix_m r') (n_rows_m r') (n_cols_m r')))"
    by (rule Render_state_unfolded)
next
  assume a: "count_parts state = length (vertices_m r)"
  define r' where "r' = r\<lparr>R_m := map (component_rotation_matrix state) [0 ..< count_parts state],
      t_m := map (component_position state) [0 ..< count_parts state]\<rparr>"
  have s: "set_poses r (map (component_rotation_matrix state) [0 ..< count_parts state])
              (map (component_position state) [0 ..< count_parts state]) = Inr r'"
    using a by (simp add: set_poses_def r'_def)
  have e: "Render_state intersect r state =
      Inr (r', Render_depth intersect r' (camera_matrix_m r) (n_rows_m r) (n_cols_m r))"
    by (simp add: Render_state_unfolded s) (simp add: r'_def)
  show "\<exists>r' depth_vector. Render_state intersect r state = Inr (r', depth_vector)
        \<and> R_m r' = map (component_rotation_matrix state) [0 ..< count_parts state]
        \<and> t_m r' = map (component_position state) [0 ..< count_parts state]
        \<and> length (R_m r') = count_parts state \<and> length (t_m r') = count_parts state
        \<and> r' = r\<lparr>R_m := R_m r', t_m := t_m r'\<rparr>
        \<and> camera_matrix_m r' = camera_matrix_m r \<and> n_rows_m r' = n_rows_m r
        \<and> n_cols_m r' = n_cols_m r
        \<and> depth_vector = Render_depth intersect r' (camera_matrix_m r) (n_rows_m r) (n_cols_m r)
        \<and> length depth_vector = nat (n_rows_m r) * nat (n_cols_m r)"
    by (intro exI [of _ r'] exI [of _ "Render_depth intersect r' (camera_matrix_m r) (n_rows_m r) (n_cols_m r)"])
       (simp add: e Render_depth_length, simp add: r'_def)
next
  assume "count_parts state \<noteq> length (vertices_m r)"
  then show "Render_state intersect r state = Inl InvalidArgument"
    by (simp add: Render_state_unfolded set_poses_def)
qed

text \<open>
  The example state moves the one triangle by \<open>(0, 0, 2)\<close>; it is then met at the depth 1.
\<close>

theorem Render_state_sets_poses_then_renders_witness:
  "count_parts one_part = length (vertices_m one_triangle)
   \<and> Render_state in_front one_triangle one_part =
       Inr (one_triangle\<lparr>R_m := [identity_Matrix], t_m := [(0, 0, 2)]\<rparr>, [Finite 1])
   \<and> (\<exists>r' depth_vector. Render_state in_front one_triangle one_part = Inr (r', depth_vector)
        \<and> R_m r' = [identity_Matrix] \<and> t_m r' = [(0, 0, 2)]
        \<and> camera_matrix_m r' = camera_matrix_m one_triangle
        \<and> length depth_vector = 1)"
proof -
  have h: "count_parts one_part = length (vertices_m one_triangle)"
    by (simp add: one_part_def one_triangle_def)
  note th = Render_state_sets_poses_then_renders [of in_front one_triangle one_part]
  have "Render_state in_front one_triangle one_part =
      (case set_poses one_triangle [identity_Matrix] [(0, 0, 2)] of
         Inl e \<Rightarrow> Inl e
       | Inr r' \<Rightarrow>
           Inr (r', Render_depth in_front r' (camera_matrix_m r') (n_rows_m r') (n_cols_m r')))"
    using conjunct1 [OF th] by (simp add: one_part_poses)
  then have e: "Render_state in_front one_triangle one_part =
       Inr (one_triangle\<lparr>R_m := [identity_Matrix], t_m := [(0, 0, 2)]\<rparr>, [Finite 1])"
    by (simp add: one_triangle_moved Render_depth_def Render_indices_depth_def render_pixel_def
        moved_hits in_front_def no_hit_def)
       (simp add: one_triangle_def one_pixel)
  have n: "nat (n_rows_m one_triangle) * nat (n_cols_m one_triangle) = 1"
    by (simp add: one_triangle_def)
  from mp [OF conjunct1 [OF conjunct2 [OF th]] h]
  obtain r' depth_vector where w: "Render_state in_front one_triangle one_part = Inr (r', depth_vector)"
    "R_m r' = map (component_rotation_matrix one_part) [0 ..< count_parts one_part]"
    "t_m r' = map (component_position one_part) [0 ..< count_parts one_part]"
    "camera_matrix_m r' = camera_matrix_m one_triangle"
    "length depth_vector = nat (n_rows_m one_triangle) * nat (n_cols_m one_triangle)"
    by blast
  have "Render_state in_front one_triangle one_part = Inr (r', depth_vector)
        \<and> R_m r' = [identity_Matrix] \<and> t_m r' = [(0, 0, 2)]
        \<and> camera_matrix_m r' = camera_matrix_m one_triangle
        \<and> length depth_vector = 1"
    using w by (simp only: one_part_poses n)
  then have "\<exists>r' depth_vector. Render_state in_front one_triangle one_part = Inr (r', depth_vector)
        \<and> R_m r' = [identity_Matrix] \<and> t_m r' = [(0, 0, 2)]
        \<and> camera_matrix_m r' = camera_matrix_m one_triangle
        \<and> length depth_vector = 1"
    by blast
  with h e show ?thesis by simp
qed

text \<open>
  Claim C8. A hit is valid when the ray meets the triangle (the intersection lies within
  it) at a strictly positive depth. For a pixel of the image at which no triangle of any
  body is validly hit, the render records the sentinel index and a depth that is not
  finite, the positive infinity. The render is a total function with one index and one
  depth for every pixel: a pixel with no hit is a value of the result, not a failure.
\<close>

theorem no_hit_pixel_is_a_normal_result:
  assumes "0 \<le> row" and "row < n_rows" and "0 \<le> col" and "col < n_cols"
    and "\<forall>(body, hit) \<in> set (body_hits intersect r camera_matrix row col). \<not> valid_hit hit"
  shows "length (fst (Render_indices_depth intersect r camera_matrix n_rows n_cols)) = nat n_rows * nat n_cols
    \<and> length (snd (Render_indices_depth intersect r camera_matrix n_rows n_cols)) = nat n_rows * nat n_cols
    \<and> fst (Render_indices_depth intersect r camera_matrix n_rows n_cols) ! (nat row * nat n_cols + nat col)
        = sentinel_index
    \<and> snd (Render_indices_depth intersect r camera_matrix n_rows n_cols) ! (nat row * nat n_cols + nat col)
        = PosInf
    \<and> \<not> isfinite (Render_depth intersect r camera_matrix n_rows n_cols ! (nat row * nat n_cols + nat col))"
proof -
  note p = pixels_nth [OF assms(1-4)]
  have n: "render_pixel intersect r camera_matrix row col = no_hit"
    unfolding render_pixel_def by (rule keep_nearest_no_valid_hit [OF assms(5)])
  have l: "length (pixels n_rows n_cols) = nat n_rows * nat n_cols"
    by (simp add: pixels_def)
  have i: "fst (Render_indices_depth intersect r camera_matrix n_rows n_cols) ! (nat row * nat n_cols + nat col)
        = sentinel_index"
    using p by (simp add: Render_indices_depth_def n no_hit_def)
  have d: "snd (Render_indices_depth intersect r camera_matrix n_rows n_cols) ! (nat row * nat n_cols + nat col)
        = PosInf"
    using p by (simp add: Render_indices_depth_def n no_hit_def)
  from i d l show ?thesis
    by (simp add: Render_depth_def) (simp add: Render_indices_depth_def)
qed

text \<open>
  The one triangle behind the camera: the pixel has the sentinel index and an infinite
  depth.
\<close>

theorem no_hit_pixel_is_a_normal_result_witness:
  "(0 :: int) \<le> 0 \<and> (0 :: int) < 1
   \<and> body_hits behind_camera one_triangle identity_Matrix 0 0 = [(0, Some (- 1))]
   \<and> \<not> valid_hit (Some (- 1))
   \<and> Render_indices_depth behind_camera one_triangle identity_Matrix 1 1 = ([- 1], [PosInf])"
proof -
  have b: "body_hits behind_camera one_triangle identity_Matrix 0 0 = [(0, Some (- 1))]"
    by (simp add: body_hits_def posed_bodies_def one_triangle_def behind_camera_def)
  then have h: "\<forall>(body, hit) \<in> set (body_hits behind_camera one_triangle identity_Matrix 0 0).
      \<not> valid_hit hit" by simp
  have z: "(0 :: int) \<le> 0" "(0 :: int) < 1" by simp_all
  note th = no_hit_pixel_is_a_normal_result [OF z(1) z(2) z(1) z(2) h]
  have "Render_indices_depth behind_camera one_triangle identity_Matrix 1 1 = ([- 1], [PosInf])"
  proof (rule prod_eqI)
    show "fst (Render_indices_depth behind_camera one_triangle identity_Matrix 1 1) = fst ([- 1], [PosInf])"
      using th by (simp add: list_eq_iff_nth_eq sentinel_index_def)
    show "snd (Render_indices_depth behind_camera one_triangle identity_Matrix 1 1) = snd ([- 1], [PosInf])"
      using th by (simp add: list_eq_iff_nth_eq)
  qed
  with b show ?thesis by simp
qed

end
